theory Spec2Isabelle
  imports Complex_Main "HOL-Library.Word" "HOL-Library.Monad_Syntax"
begin

unbundle bit_operations_syntax

section \<open>Conventions\<close>

text \<open>
  The firmware is C++ for the ESP32. Bytes and device ids are \<open>uint8_t\<close>, modelled as
  \<open>8 word\<close>; the 16-bit wire values are \<open>int16_t\<close>, modelled as \<open>16 word\<close> and read
  with \<open>sint\<close>. Offsets are C \<open>int\<close>s; they stay far below \<open>2^31\<close> (a count is one byte),
  so they are modelled as unbounded \<open>int\<close>. On this target plain \<open>char\<close> is unsigned, so
  \<open>data[i] == 0xAA\<close> compares the byte value.

  Single-precision \<open>float\<close> values are idealised as \<open>real\<close> in the decoder and in the
  coordinate transform: every arithmetic operation is exact there, and the results about
  them are statements about the algorithms, not about IEEE-754 rounding. Where rounding
  decides the result, every rounding step is written out: at the upper end of the range
  of \<open>normalizeAngle\<close> (\<open>normalizeAngle_ieee\<close>), and in the fixed-point conversion pair
  (\<open>floatToInt16\<close>, which rounds the product before it truncates, and
  \<open>int16ToFloat_ieee\<close>, which rounds the quotient).

  Reading \<open>std::string\<close> past its length is undefined behaviour. Every read of the payload
  goes through \<open>byte_at\<close>, and \<open>None\<close> stands for such a read. The serial log output
  is left out; its only reads of the payload are the hex dump of \<open>data[i]\<close> for \<open>i\<close> below
  the length (lines 102 to 104) and repeats of bytes that the decoder has read already.
\<close>

type_synonym uint8 = "8 word"
type_synonym int16 = "16 word"

definition byte_at :: "uint8 list \<Rightarrow> int \<Rightarrow> uint8 option" where
  "byte_at data i = (if 0 \<le> i \<and> i < int (length data) then Some (data ! nat i) else None)"

section \<open>Ble\_Handler.cpp: the wireless command decoder\<close>

subsection \<open>Constants of Ble\_Handler.h\<close>

text \<open>
  The header Ble\_Handler.h is not among the sources. The two scale factors and the
  number of motors are parameters of the model.
\<close>

record ble_header =
  ANGLE_SCALE :: real
  VELOCITY_SCALE :: real
  MAX_MOTORS :: int

text \<open>
  Modelled from the spec: the packet-type codes of the missing header Ble\_Handler.h.
  The spec's scenario frame \<open>AA 55 01 00 06 00 64\<close> is a SINGLE packet, and the layout
  comments of \<open>parseDirectCommandData\<close> give \<open>AA 55 02 DT ...\<close> for MULTI and
  \<open>AA 55 03 DT COUNT ...\<close> for MULTI\_STRUCT.
\<close>

definition PACKET_TYPE_SINGLE :: uint8 where "PACKET_TYPE_SINGLE = 0x01"
definition PACKET_TYPE_MULTI :: uint8 where "PACKET_TYPE_MULTI = 0x02"
definition PACKET_TYPE_MULTI_STRUCT :: uint8 where "PACKET_TYPE_MULTI_STRUCT = 0x03"

text \<open>
  Modelled from the spec: the data-type tags of the missing header Ble\_Handler.h
  (0 = angle, 1 = velocity, and 2 = current as in the comment on \<open>data_scale_type\<close>).
\<close>

definition DATA_TYPE_VELOCITY :: uint8 where "DATA_TYPE_VELOCITY = 0x01"
definition DATA_TYPE_CURRENT :: uint8 where "DATA_TYPE_CURRENT = 0x02"

subsection \<open>State\<close>

text \<open>
  The acknowledgement texts \<open>"%d:SINGLE:%.2f"\<close>, \<open>"%d:MULTI:%.2f"\<close>,
  \<open>"%d:MULTI_STRUCT:%.2f"\<close> and \<open>"%d:ERROR:UNKNOWN_PACKET"\<close> are kept as constructors
  holding the printed device id and value; the rounding to two decimals is not modelled.
\<close>

datatype response =
  SINGLE uint8 real
  | MULTI uint8 real
  | MULTI_STRUCT uint8 real
  | ERROR_UNKNOWN_PACKET uint8

record MultiStructParsed =
  packet_type :: uint8
  device_id :: uint8
  data_type :: uint8
  raw_value :: int16
  scaled_value :: real
  count :: uint8

text \<open>
  The globals of Ble\_Handler.cpp that the decoder reads or writes. \<open>pTxCharacteristic\<close>
  is \<open>None\<close> for the null pointer, and otherwise holds the values notified on the
  transmit characteristic so far, oldest first.
\<close>

record ble_state =
  ble_motor_target :: real
  new_command :: bool
  data_scale_type :: uint8
  my_device_id :: uint8
  deviceConnected :: bool
  pTxCharacteristic :: "response list option"
  last_multi_struct_cmd :: MultiStructParsed

definition getMyDeviceID :: "ble_state \<Rightarrow> uint8" where
  "getMyDeviceID st = my_device_id st"

text \<open>
  \<open>int16ToFloat\<close> (lines 78 to 80) as the decoder uses it, in exact arithmetic: the
  quotient is not rounded. The decoder results below say which value is converted and
  where it is stored; none of them depends on the last bit of the quotient. The rounded
  conversion is \<open>int16ToFloat_ieee\<close> further down.
\<close>

definition int16ToFloat :: "int16 \<Rightarrow> real \<Rightarrow> real" where
  "int16ToFloat v scale = real_of_int (sint v) / scale"

definition sendBLEResponse :: "response \<Rightarrow> ble_state \<Rightarrow> ble_state" where
  "sendBLEResponse r st =
     (case pTxCharacteristic st of
        Some sent \<Rightarrow>
          if deviceConnected st then st\<lparr>pTxCharacteristic := Some (sent @ [r])\<rparr> else st
      | None \<Rightarrow> st)"

text \<open>\<open>(int16_t)((hi << 8) | lo)\<close>: the big-endian 16-bit value of two bytes.\<close>

definition be_int16 :: "uint8 \<Rightarrow> uint8 \<Rightarrow> int16" where
  "be_int16 hi lo = push_bit 8 (ucast hi) OR ucast lo"

text \<open>
  The block \<open>if (fabs(new_target - ble_motor_target) > 0.001f) {...} else {...}\<close>, which
  the source repeats verbatim in each of its four decode paths (lines 197, 280, 321, 401).
\<close>

definition store_target :: "real \<Rightarrow> ble_state \<Rightarrow> ble_state" where
  "store_target new_target st =
     (if \<bar>new_target - ble_motor_target st\<bar> > 0.001
      then st\<lparr>ble_motor_target := new_target, new_command := True\<rparr>
      else st\<lparr>new_command := False\<rparr>)"

text \<open>
  The scale selection that the MULTI and MULTI\_STRUCT paths share (lines 230 to 242 and
  356 to 368): the factor and the value written to \<open>data_scale_type\<close>.
\<close>

definition select_scale :: "ble_header \<Rightarrow> uint8 \<Rightarrow> real \<times> uint8" where
  "select_scale h dt =
     (if dt = DATA_TYPE_VELOCITY then (VELOCITY_SCALE h, 1)
      else if dt = DATA_TYPE_CURRENT then (1000, 2)
      else (ANGLE_SCALE h, 0))"

subsection \<open>parseDirectCommandData\<close>

text \<open>The SINGLE branch (lines 147 to 216).\<close>

definition parseSingle :: "ble_header \<Rightarrow> bool \<Rightarrow> uint8 list \<Rightarrow> ble_state \<Rightarrow> ble_state option" where
  "parseSingle h has_frame_header data st =
     (let my_id = getMyDeviceID st;
          min_length = (if has_frame_header then 7 else 6 :: int)
      in if int (length data) < min_length then Some st
         else
           let (id_offset, type_offset, value_offset) =
                 (if has_frame_header then (4, 3, 5) else (1, 2, 3 :: int))
           in do {
             target_id \<leftarrow> byte_at data id_offset;
             dt \<leftarrow> byte_at data type_offset;
             if target_id \<noteq> my_id then Some (st\<lparr>new_command := False\<rparr>)
             else do {
               vh \<leftarrow> byte_at data value_offset;
               vl \<leftarrow> byte_at data (value_offset + 1);
               let target_int = be_int16 vh vl;
               let new_target = int16ToFloat target_int (ANGLE_SCALE h);
               let st1 = store_target new_target st;
               Some (sendBLEResponse (SINGLE my_id (ble_motor_target st1)) st1)
             }
           })"

text \<open>
  The value extraction shared by the slice form and the legacy form of MULTI: bounds
  check on \<open>data_offset + 2\<close>, decode, store, acknowledge.
\<close>

definition decodeMultiAt :: "real \<Rightarrow> int \<Rightarrow> uint8 list \<Rightarrow> ble_state \<Rightarrow> ble_state option" where
  "decodeMultiAt scale data_offset data st =
     (if data_offset + 2 > int (length data) then Some st
      else do {
        vh \<leftarrow> byte_at data data_offset;
        vl \<leftarrow> byte_at data (data_offset + 1);
        let target_int = be_int16 vh vl;
        let new_target = int16ToFloat target_int scale;
        let st1 = store_target new_target st;
        Some (sendBLEResponse (MULTI (getMyDeviceID st) (ble_motor_target st1)) st1)
      })"

text \<open>The legacy 24-byte form and the final "invalid format" return (lines 297 to 337).\<close>

definition parseMultiLegacy :: "real \<Rightarrow> bool \<Rightarrow> int \<Rightarrow> uint8 list \<Rightarrow> ble_state \<Rightarrow> ble_state option" where
  "parseMultiLegacy scale has_frame_header type_offset data st =
     (if has_frame_header \<and> length data = 24 then
        let data_start_offset = type_offset + 1;
            my_id = getMyDeviceID st
        in if my_id < 1 \<or> my_id > 10 then Some st
           else
             let idx = uint my_id - 1;
                 data_offset = data_start_offset + idx * 2
             in decodeMultiAt scale data_offset data st
      else Some st)"

text \<open>
  The MULTI branch (lines 218 to 337). \<open>end_id\<close> is a \<open>uint8_t\<close>: the sum
  \<open>start_id + count - 1\<close> is computed in \<open>int\<close> and truncated to eight bits on assignment,
  which is the word arithmetic below.
\<close>

definition parseMulti :: "ble_header \<Rightarrow> bool \<Rightarrow> uint8 list \<Rightarrow> ble_state \<Rightarrow> ble_state option" where
  "parseMulti h has_frame_header data st =
     (let type_offset = (if has_frame_header then 3 else 1 :: int)
      in if int (length data) \<le> type_offset then Some st
         else do {
           dt \<leftarrow> byte_at data type_offset;
           let (scale, tag) = select_scale h dt;
           let st0 = st\<lparr>data_scale_type := tag\<rparr>;
           if has_frame_header \<and> length data \<ge> 6 then do {
             let start_id_offset = type_offset + 1;
             let count_offset = type_offset + 2;
             let data_start_offset = type_offset + 3;
             start_id \<leftarrow> byte_at data start_id_offset;
             cnt \<leftarrow> byte_at data count_offset;
             let ids_ok = (start_id \<ge> 1 \<and> uint start_id \<le> MAX_MOTORS h \<and> cnt \<ge> 1);
             let len_ok = (int (length data) = data_start_offset + uint cnt * 2);
             if ids_ok \<and> len_ok then
               let my_id = getMyDeviceID st0;
                   end_id = start_id + cnt - 1
               in if my_id < start_id \<or> my_id > end_id then Some st0
                  else
                    let index_in_slice = uint my_id - uint start_id;
                        data_offset = data_start_offset + index_in_slice * 2
                    in decodeMultiAt scale data_offset data st0
             else parseMultiLegacy scale has_frame_header type_offset data st0
           }
           else parseMultiLegacy scale has_frame_header type_offset data st0
         })"

text \<open>
  The scan of the MULTI\_STRUCT entries (the \<open>for\<close> loop of lines 380 to 419). All three
  bytes of an entry are read before its id is compared; the first matching entry is
  applied and ends the loop.
\<close>

function scanItems ::
  "real \<Rightarrow> uint8 \<Rightarrow> uint8 \<Rightarrow> int \<Rightarrow> uint8 list \<Rightarrow> int \<Rightarrow> ble_state \<Rightarrow> ble_state option" where
  "scanItems scale dt cnt items_offset data i st =
     (if i < uint cnt then
        let item_offset = items_offset + i * 3
        in do {
          id \<leftarrow> byte_at data (item_offset + 0);
          vh \<leftarrow> byte_at data (item_offset + 1);
          vl \<leftarrow> byte_at data (item_offset + 2);
          let raw = be_int16 vh vl;
          let my_id = getMyDeviceID st;
          if id = my_id then
            let target = int16ToFloat raw scale;
                st1 = st\<lparr>last_multi_struct_cmd :=
                        \<lparr>packet_type = PACKET_TYPE_MULTI_STRUCT, device_id = my_id,
                         data_type = dt, raw_value = raw, scaled_value = target,
                         count = cnt\<rparr>\<rparr>;
                st2 = store_target target st1
            in Some (sendBLEResponse (MULTI_STRUCT my_id (ble_motor_target st2)) st2)
          else scanItems scale dt cnt items_offset data (i + 1) st
        }
      else Some st)"
  by pat_completeness auto
termination
  by (relation "measure (\<lambda>(scale, dt, cnt, items_offset, data, i, st). nat (uint cnt - i))") auto

declare scanItems.simps [simp del]

text \<open>The MULTI\_STRUCT branch (lines 339 to 424).\<close>

definition parseMultiStruct :: "ble_header \<Rightarrow> bool \<Rightarrow> uint8 list \<Rightarrow> ble_state \<Rightarrow> ble_state option" where
  "parseMultiStruct h has_frame_header data st =
     (let type_offset = (if has_frame_header then 3 else 1 :: int);
          count_offset = type_offset + 1;
          items_offset = type_offset + 2
      in if int (length data) < items_offset then Some st
         else do {
           dt \<leftarrow> byte_at data type_offset;
           cnt \<leftarrow> byte_at data count_offset;
           let (scale, tag) = select_scale h dt;
           let st0 = st\<lparr>data_scale_type := tag\<rparr>;
           let expected_min_len = items_offset + uint cnt * 3;
           if int (length data) < expected_min_len then Some st0
           else scanItems scale dt cnt items_offset data 0 st0
         })"

text \<open>
  Frame-header detection (lines 120 to 129): the marker \<open>AA 55\<close> followed by one of the
  three packet-type codes. It is called only on payloads of at least three bytes.
\<close>

definition detectFrameHeader :: "uint8 list \<Rightarrow> bool option" where
  "detectFrameHeader data =
     (if length data \<ge> 2 then do {
        b0 \<leftarrow> byte_at data 0;
        if b0 = 0xAA then do {
          b1 \<leftarrow> byte_at data 1;
          if b1 = 0x55 then
            (if length data \<ge> 3 then do {
               b2 \<leftarrow> byte_at data 2;
               Some (b2 = PACKET_TYPE_SINGLE \<or> b2 = PACKET_TYPE_MULTI \<or>
                     b2 = PACKET_TYPE_MULTI_STRUCT)
             }
             else Some False)
          else Some False
        }
        else Some False
      }
      else Some False)"

definition parseDirectCommandData :: "ble_header \<Rightarrow> uint8 list \<Rightarrow> ble_state \<Rightarrow> ble_state option" where
  "parseDirectCommandData h data st =
     (let my_id = getMyDeviceID st
      in if length data < 3 then Some st
         else do {
           has_frame_header \<leftarrow> detectFrameHeader data;
           pkt \<leftarrow> byte_at data (if has_frame_header then 2 else 0);
           if pkt = PACKET_TYPE_SINGLE then parseSingle h has_frame_header data st
           else if pkt = PACKET_TYPE_MULTI then parseMulti h has_frame_header data st
           else if pkt = PACKET_TYPE_MULTI_STRUCT then parseMultiStruct h has_frame_header data st
           else Some (sendBLEResponse (ERROR_UNKNOWN_PACKET my_id) st)
         })"

text \<open>
  The conversion of a floating-point value to an integer type, as in the cast
  \<open>(int32_t)(value * scale)\<close> of \<open>floatToInt16\<close> (line 65) and inside \<open>fmod\<close>: it
  truncates towards zero.
\<close>

definition trunc :: "real \<Rightarrow> int" where
  "trunc x = (if 0 \<le> x then \<lfloor>x\<rfloor> else \<lceil>x\<rceil>)"

section \<open>FOC\_Core.cpp: the coordinate transform engine and the calibration\<close>

text \<open>
  \<open>fmod\<close> of the C library: \<open>x - n * y\<close> where \<open>n\<close> is \<open>x / y\<close> truncated towards zero,
  so the result has the sign of \<open>x\<close>. Arduino's \<open>PI\<close> is idealised as \<open>pi\<close>.
\<close>

definition fmod :: "real \<Rightarrow> real \<Rightarrow> real" where
  "fmod x y = x - real_of_int (trunc (x / y)) * y"

definition normalizeAngle :: "real \<Rightarrow> real" where
  "normalizeAngle angle =
     (let a = fmod angle (2 * pi)
      in if a \<ge> 0 then a else a + 2 * pi)"

text \<open>The macro \<open>_constrain(amt, low, high)\<close> of FOC.h.\<close>

definition constrain :: "real \<Rightarrow> real \<Rightarrow> real \<Rightarrow> real" where
  "constrain amt low high = (if amt < low then low else if amt > high then high else amt)"

definition PI_3_2 :: real where
  "PI_3_2 = 4.71238898038"

text \<open>
  The globals of FOC\_Globals.cpp that FOC\_Core.cpp uses. \<open>S0_angle\<close> is the angle that
  \<open>S0.getMechanicalAngle()\<close> returns (the sensor class is not among the sources), and
  \<open>ledc\<close> holds the last duty value written to the PWM channels 0, 1 and 2.
\<close>

record foc_state =
  voltage_power_supply :: real
  Ualpha :: real
  Ubeta :: real
  Ua :: real
  Ub :: real
  Uc :: real
  zero_electric_angle :: real
  PP :: int
  DIR :: int
  S0_angle :: real
  ledc :: "int \<times> int \<times> int"

text \<open>
  The three duty cycles \<open>dc_a\<close>, \<open>dc_b\<close>, \<open>dc_c\<close> that \<open>setPwm\<close> computes (lines 25 to
  32), and \<open>setPwm\<close> itself, which hands \<open>dc * 255\<close> to \<open>ledcWrite\<close>; the conversion to
  the integer duty argument truncates.
\<close>

definition dutyCycles :: "real \<Rightarrow> real \<Rightarrow> real \<Rightarrow> foc_state \<Rightarrow> real \<times> real \<times> real" where
  "dutyCycles Ua0 Ub0 Uc0 st =
     (let Ua1 = constrain Ua0 0 (voltage_power_supply st);
          Ub1 = constrain Ub0 0 (voltage_power_supply st);
          Uc1 = constrain Uc0 0 (voltage_power_supply st);
          dc_a = constrain (Ua1 / voltage_power_supply st) 0 1;
          dc_b = constrain (Ub1 / voltage_power_supply st) 0 1;
          dc_c = constrain (Uc1 / voltage_power_supply st) 0 1
      in (dc_a, dc_b, dc_c))"

definition setPwm :: "real \<Rightarrow> real \<Rightarrow> real \<Rightarrow> foc_state \<Rightarrow> foc_state" where
  "setPwm Ua0 Ub0 Uc0 st =
     (case dutyCycles Ua0 Ub0 Uc0 st of
        (dc_a, dc_b, dc_c) \<Rightarrow>
          st\<lparr>ledc := (trunc (dc_a * 255), trunc (dc_b * 255), trunc (dc_c * 255))\<rparr>)"

text \<open>
  \<open>setTorque\<close> (lines 46 to 69), split in two: \<open>setTorqueVoltages\<close> is the state after
  the inverse Park and Clarke transforms have been stored in the globals, and \<open>setTorque\<close>
  then calls \<open>setPwm\<close> on the three phase voltages.
\<close>

definition setTorqueVoltages :: "real \<Rightarrow> real \<Rightarrow> foc_state \<Rightarrow> foc_state" where
  "setTorqueVoltages Uq0 angle_el0 st =
     (let Uq = constrain Uq0 (- (voltage_power_supply st) / 2) ((voltage_power_supply st) / 2);
          angle_el = normalizeAngle angle_el0;
          st1 = st\<lparr>Ualpha := - Uq * sin angle_el\<rparr>;
          st2 = st1\<lparr>Ubeta := Uq * cos angle_el\<rparr>;
          st3 = st2\<lparr>Ua := Ualpha st2 + voltage_power_supply st2 / 2\<rparr>;
          st4 = st3\<lparr>Ub := (sqrt 3 * Ubeta st3 - Ualpha st3) / 2 + voltage_power_supply st3 / 2\<rparr>;
          st5 = st4\<lparr>Uc := (- Ualpha st4 - sqrt 3 * Ubeta st4) / 2 + voltage_power_supply st4 / 2\<rparr>
      in st5)"

definition setTorque :: "real \<Rightarrow> real \<Rightarrow> foc_state \<Rightarrow> foc_state" where
  "setTorque Uq0 angle_el0 st =
     (let st5 = setTorqueVoltages Uq0 angle_el0 st
      in setPwm (Ua st5) (Ub st5) (Uc st5) st5)"

definition electricalAngle :: "foc_state \<Rightarrow> real" where
  "electricalAngle st =
     normalizeAngle (real_of_int (DIR st * PP st) * S0_angle st - zero_electric_angle st)"

text \<open>
  \<open>calibrateSensor\<close> (lines 129 to 152). \<open>reading\<close> is the mechanical angle that the
  sensor reports after \<open>S0.Sensor_update()\<close>, at the end of the one-second hold.
\<close>

definition calibrateSensor :: "int \<Rightarrow> int \<Rightarrow> real \<Rightarrow> foc_state \<Rightarrow> foc_state" where
  "calibrateSensor PP0 DIR0 reading st =
     (let st1 = st\<lparr>PP := PP0\<rparr>;
          st2 = st1\<lparr>DIR := DIR0\<rparr>;
          st3 = setTorque 3 PI_3_2 st2;
          st4 = st3\<lparr>S0_angle := reading\<rparr>;
          st5 = st4\<lparr>zero_electric_angle := electricalAngle st4\<rparr>
      in setTorque 0 PI_3_2 st5)"

subsection \<open>normalizeAngle and electricalAngle with IEEE-754 rounding\<close>

text \<open>
  Rounding to nearest, ties to even, to \<open>p\<close> significant bits: \<open>p = 24\<close> is \<open>float\<close> and
  \<open>p = 53\<close> is \<open>double\<close>. Only the normal range is modelled (no overflow, no subnormal
  numbers).
\<close>

definition nearest_even :: "real \<Rightarrow> int" where
  "nearest_even x =
     (let f = \<lfloor>x\<rfloor>; r = x - real_of_int f
      in if r < 1 / 2 then f else if 1 / 2 < r then f + 1 else if even f then f else f + 1)"

definition round_binary :: "nat \<Rightarrow> real \<Rightarrow> real" where
  "round_binary p x =
     (if x = 0 then 0
      else
        let e = \<lfloor>log 2 \<bar>x\<bar>\<rfloor>;
            ulp = 2 powr real_of_int (e - int p + 1)
        in real_of_int (nearest_even (x / ulp)) * ulp)"

definition to_float :: "real \<Rightarrow> real" where
  "to_float = round_binary 24"

definition to_double :: "real \<Rightarrow> real" where
  "to_double = round_binary 53"

text \<open>
  Arduino's \<open>PI\<close> is the \<open>double\<close> literal \<open>3.1415926535897932384626433832795\<close>, that is
  the \<open>double\<close> nearest to \<open>pi\<close>, \<open>0x400921FB54442D18\<close>.
\<close>

definition PI :: real where
  "PI = 884279719003555 / 2 ^ 48"

text \<open>
  \<open>normalizeAngle\<close> (lines 10 to 15) as compiled: \<open>2*PI\<close> is a \<open>double\<close>, so \<open>fmod\<close> works
  on \<open>double\<close>s (its result is exact) and is rounded when it is stored in the \<open>float a\<close>;
  \<open>a + 2*PI\<close> is a \<open>double\<close> addition, rounded again to \<open>float\<close> by the \<open>return\<close>.
  \<open>electricalAngle\<close> (line 80) computes its argument in \<open>float\<close>.
\<close>

definition normalizeAngle_ieee :: "real \<Rightarrow> real" where
  "normalizeAngle_ieee angle =
     (let a = to_float (fmod angle (2 * PI))
      in if a \<ge> 0 then a else to_float (to_double (a + 2 * PI)))"

definition electricalAngle_ieee :: "foc_state \<Rightarrow> real" where
  "electricalAngle_ieee st =
     normalizeAngle_ieee
       (to_float (to_float (to_float (real_of_int (DIR st * PP st)) * S0_angle st)
                  - zero_electric_angle st))"

subsection \<open>The fixed-point conversion pair with IEEE-754 rounding\<close>

text \<open>
  \<open>floatToInt16\<close> (Ble\_Handler.cpp, lines 64 to 69). The product \<open>value * scale\<close> is a
  \<open>float\<close> multiplication, so it is rounded to single precision before the cast
  \<open>(int32_t)\<close> truncates it towards zero. The cast is undefined when the rounded product
  does not fit 32 bits, which is \<open>None\<close>. The two comparisons clamp to the 16-bit range,
  so the final cast \<open>(int16_t)\<close> never wraps.
\<close>

definition floatToInt16 :: "real \<Rightarrow> real \<Rightarrow> int16 option" where
  "floatToInt16 v scale =
     (let scaled_value = trunc (to_float (v * scale))
      in if scaled_value < - (2 ^ 31) \<or> 2 ^ 31 \<le> scaled_value then None
         else
           let scaled_value = (if scaled_value > 32767 then 32767 else scaled_value);
               scaled_value = (if scaled_value < - 32768 then - 32768 else scaled_value)
           in Some (word_of_int scaled_value))"

text \<open>
  \<open>int16ToFloat\<close> (lines 78 to 80) with its two rounding steps: the conversion
  \<open>(float)value\<close> and the \<open>float\<close> division.
\<close>

definition int16ToFloat_ieee :: "int16 \<Rightarrow> real \<Rightarrow> real" where
  "int16ToFloat_ieee v scale = to_float (to_float (real_of_int (sint v)) / scale)"

text \<open>
  The initial values of the globals (Ble\_Handler.cpp, lines 10 to 24): no peer is
  connected, the transmit characteristic does not exist yet, and
  \<open>last_multi_struct_cmd\<close> is zero-initialised.
\<close>

definition initial_ble_state :: ble_state where
  "initial_ble_state =
     \<lparr>ble_motor_target = 0, new_command = False, data_scale_type = 0, my_device_id = 6,
      deviceConnected = False, pTxCharacteristic = None,
      last_multi_struct_cmd =
        \<lparr>packet_type = 0, device_id = 0, data_type = 0, raw_value = 0, scaled_value = 0,
         count = 0\<rparr>\<rparr>"

text \<open>
  The state in which the frames of the examples arrive: a peer has connected after
  \<open>initBLEServer\<close> created the transmit characteristic, and nothing has been notified.
\<close>

definition connected_ble_state :: ble_state where
  "connected_ble_state = initial_ble_state\<lparr>deviceConnected := True, pTxCharacteristic := Some []\<rparr>"

section \<open>The decoder never reads past the payload\<close>

lemma byte_at_Some: "0 \<le> i \<Longrightarrow> i < int (length data) \<Longrightarrow> byte_at data i = Some (data ! nat i)"
  by (simp add: byte_at_def)

lemma byte_at_0: "3 \<le> length data \<Longrightarrow> byte_at data 0 = Some (data ! 0)"
  and byte_at_1: "3 \<le> length data \<Longrightarrow> byte_at data 1 = Some (data ! 1)"
  and byte_at_2: "3 \<le> length data \<Longrightarrow> byte_at data 2 = Some (data ! 2)"
  by (simp_all add: byte_at_def del: length_greater_0_conv)

lemma detectFrameHeader_eq:
  "3 \<le> length data \<Longrightarrow>
   detectFrameHeader data =
     Some (data ! 0 = 0xAA \<and> data ! 1 = 0x55 \<and>
           (data ! 2 = PACKET_TYPE_SINGLE \<or> data ! 2 = PACKET_TYPE_MULTI \<or>
            data ! 2 = PACKET_TYPE_MULTI_STRUCT))"
  by (simp add: detectFrameHeader_def byte_at_0 byte_at_1 byte_at_2)

lemma parse_framed:
  assumes "3 \<le> length data" "data ! 0 = 0xAA" "data ! 1 = 0x55"
    and "data ! 2 = PACKET_TYPE_SINGLE \<or> data ! 2 = PACKET_TYPE_MULTI \<or>
         data ! 2 = PACKET_TYPE_MULTI_STRUCT"
  shows "parseDirectCommandData h data st =
     (if data ! 2 = PACKET_TYPE_SINGLE then parseSingle h True data st
      else if data ! 2 = PACKET_TYPE_MULTI then parseMulti h True data st
      else parseMultiStruct h True data st)"
proof -
  have "detectFrameHeader data = Some True"
    using assms by (simp add: detectFrameHeader_eq)
  then show ?thesis
    using assms(1,4) by (auto simp add: parseDirectCommandData_def byte_at_2 Let_def)
qed

lemma parse_unframed:
  assumes "3 \<le> length data"
    and "\<not> (data ! 0 = 0xAA \<and> data ! 1 = 0x55 \<and>
           (data ! 2 = PACKET_TYPE_SINGLE \<or> data ! 2 = PACKET_TYPE_MULTI \<or>
            data ! 2 = PACKET_TYPE_MULTI_STRUCT))"
  shows "parseDirectCommandData h data st =
     (if data ! 0 = PACKET_TYPE_SINGLE then parseSingle h False data st
      else if data ! 0 = PACKET_TYPE_MULTI then parseMulti h False data st
      else if data ! 0 = PACKET_TYPE_MULTI_STRUCT then parseMultiStruct h False data st
      else Some (sendBLEResponse (ERROR_UNKNOWN_PACKET (getMyDeviceID st)) st))"
proof -
  have "detectFrameHeader data = Some False"
    using assms by (simp add: detectFrameHeader_eq)
  then show ?thesis
    using assms(1) by (simp add: parseDirectCommandData_def byte_at_0 Let_def)
qed

lemma parseSingle_safe: "\<exists>st'. parseSingle h f data st = Some st'"
  unfolding parseSingle_def Let_def
  by (cases f) (simp_all add: byte_at_def del: length_greater_0_conv)

lemma decodeMultiAt_safe: "0 \<le> off \<Longrightarrow> \<exists>st'. decodeMultiAt scale off data st = Some st'"
  unfolding decodeMultiAt_def Let_def
  by (simp add: byte_at_def)

lemma parseMultiLegacy_safe:
  "0 \<le> t \<Longrightarrow> \<exists>st'. parseMultiLegacy scale f t data st = Some st'"
  unfolding parseMultiLegacy_def Let_def
  by (simp add: decodeMultiAt_safe word_le_def word_less_def)

lemma parseMulti_safe: "\<exists>st'. parseMulti h f data st = Some st'"
proof (cases "int (length data) \<le> (if f then 3 else 1)")
  case True
  then show ?thesis by (simp add: parseMulti_def)
next
  case False
  obtain scale tag where sc: "select_scale h (data ! (if f then 3 else 1)) = (scale, tag)"
    by (cases "select_scale h (data ! (if f then 3 else 1))")
  from False have t: "byte_at data (if f then 3 else 1) = Some (data ! (if f then 3 else 1))"
    by (simp add: byte_at_def del: length_greater_0_conv)
  show ?thesis
  proof (cases "f \<and> 6 \<le> length data")
    case True
    then have b: "byte_at data 4 = Some (data ! 4)" "byte_at data 5 = Some (data ! 5)"
      by (simp_all add: byte_at_def)
    show ?thesis
      using True False sc t b
      by (simp add: parseMulti_def Let_def decodeMultiAt_safe parseMultiLegacy_safe
            word_le_def word_less_def)
  next
    case F2: False
    show ?thesis
      using F2 False sc t
      by (auto simp add: parseMulti_def Let_def parseMultiLegacy_safe)
  qed
qed

lemma scanItems_safe:
  "0 \<le> i \<Longrightarrow> 0 \<le> off \<Longrightarrow> off + uint cnt * 3 \<le> int (length data)
   \<Longrightarrow> \<exists>st'. scanItems scale dt cnt off data i st = Some st'"
proof (induction scale dt cnt off data i st rule: scanItems.induct)
  case (1 scale dt cnt off data i st)
  show ?case
  proof (cases "i < uint cnt")
    case False
    then show ?thesis by (simp add: scanItems.simps)
  next
    case True
    with 1 have b: "off + i * 3 + 2 < int (length data)" "0 \<le> off + i * 3" by auto
    show ?thesis
    proof (cases "data ! nat (off + i * 3) = getMyDeviceID st")
      case True
      then show ?thesis using b \<open>i < uint cnt\<close>
        by (subst scanItems.simps) (simp add: byte_at_Some Let_def)
    next
      case False
      have "\<exists>st'. scanItems scale dt cnt off data (i + 1) st = Some st'"
        using 1 \<open>i < uint cnt\<close> b False
        by (auto simp: byte_at_Some)
      then show ?thesis using b \<open>i < uint cnt\<close> False
        by (subst scanItems.simps) (simp add: byte_at_Some Let_def)
    qed
  qed
qed

lemma scanItems_no_match:
  "0 \<le> i \<Longrightarrow> 0 \<le> off \<Longrightarrow> off + uint cnt * 3 \<le> int (length data)
   \<Longrightarrow> (\<forall>j. i \<le> j \<and> j < uint cnt \<longrightarrow> data ! nat (off + j * 3) \<noteq> getMyDeviceID st)
   \<Longrightarrow> scanItems scale dt cnt off data i st = Some st"
proof (induction scale dt cnt off data i st rule: scanItems.induct)
  case (1 scale dt cnt off data i st)
  show ?case
  proof (cases "i < uint cnt")
    case False
    then show ?thesis by (simp add: scanItems.simps)
  next
    case True
    with 1 have b: "off + i * 3 + 2 < int (length data)" "0 \<le> off + i * 3" by auto
    have ne: "data ! nat (off + i * 3) \<noteq> getMyDeviceID st"
      using "1.prems"(4) True by simp
    have "scanItems scale dt cnt off data (i + 1) st = Some st"
      using 1 True b ne by (auto simp: byte_at_Some)
    then show ?thesis using b True ne
      by (subst scanItems.simps) (simp add: byte_at_Some Let_def)
  qed
qed

lemma parseMultiStruct_safe: "\<exists>st'. parseMultiStruct h f data st = Some st'"
proof (cases "int (length data) < (if f then 5 else 3)")
  case True
  then show ?thesis by (cases f) (simp_all add: parseMultiStruct_def)
next
  case False
  obtain scale tag where sc: "select_scale h (data ! (if f then 3 else 1)) = (scale, tag)"
    by (cases "select_scale h (data ! (if f then 3 else 1))")
  from False have t: "byte_at data (if f then 3 else 1) = Some (data ! (if f then 3 else 1))"
     "byte_at data (if f then 4 else 2) = Some (data ! (if f then 4 else 2))"
    by (cases f; simp add: byte_at_def)+
  show ?thesis
    using False sc t
    by (cases f) (simp_all add: parseMultiStruct_def Let_def scanItems_safe)
qed

lemma parse_safe: "\<exists>st'. parseDirectCommandData h data st = Some st'"
proof (cases "3 \<le> length data")
  case False
  then show ?thesis by (simp add: parseDirectCommandData_def)
next
  case True
  show ?thesis
  proof (cases "data ! 0 = 0xAA \<and> data ! 1 = 0x55 \<and>
           (data ! 2 = PACKET_TYPE_SINGLE \<or> data ! 2 = PACKET_TYPE_MULTI \<or>
            data ! 2 = PACKET_TYPE_MULTI_STRUCT)")
    case True
    then show ?thesis using \<open>3 \<le> length data\<close>
      by (simp add: parse_framed parseSingle_safe parseMulti_safe parseMultiStruct_safe)
  next
    case False
    then show ?thesis using \<open>3 \<le> length data\<close>
      by (simp add: parse_unframed parseSingle_safe parseMulti_safe parseMultiStruct_safe)
  qed
qed


section \<open>SINGLE frames\<close>

lemma parseSingle_framed_mine:
  assumes "7 \<le> length data" "data ! 4 = my_device_id st"
  shows "parseSingle h True data st =
     Some (let st1 = store_target (int16ToFloat (be_int16 (data ! 5) (data ! 6)) (ANGLE_SCALE h)) st
           in sendBLEResponse (SINGLE (my_device_id st) (ble_motor_target st1)) st1)"
  using assms by (simp add: parseSingle_def Let_def byte_at_def getMyDeviceID_def)

lemma parseSingle_unframed_mine:
  assumes "6 \<le> length data" "data ! 1 = my_device_id st"
  shows "parseSingle h False data st =
     Some (let st1 = store_target (int16ToFloat (be_int16 (data ! 3) (data ! 4)) (ANGLE_SCALE h)) st
           in sendBLEResponse (SINGLE (my_device_id st) (ble_motor_target st1)) st1)"
  using assms by (simp add: parseSingle_def Let_def byte_at_def getMyDeviceID_def)

lemma parse_single_mine:
  assumes "data = 0xAA # 0x55 # PACKET_TYPE_SINGLE # dt # my_device_id st # vh # vl # rest \<or>
           data = PACKET_TYPE_SINGLE # my_device_id st # dt # vh # vl # pad # rest"
  shows "parseDirectCommandData h data st =
     Some (let st1 = store_target (int16ToFloat (be_int16 vh vl) (ANGLE_SCALE h)) st
           in sendBLEResponse (SINGLE (my_device_id st) (ble_motor_target st1)) st1)"
  using assms
proof
  assume d: "data = 0xAA # 0x55 # PACKET_TYPE_SINGLE # dt # my_device_id st # vh # vl # rest"
  then have "parseDirectCommandData h data st = parseSingle h True data st"
    by (simp add: parse_framed)
  then show ?thesis
    using d by (simp add: parseSingle_framed_mine)
next
  assume d: "data = PACKET_TYPE_SINGLE # my_device_id st # dt # vh # vl # pad # rest"
  then have "parseDirectCommandData h data st = parseSingle h False data st"
    by (simp add: parse_unframed PACKET_TYPE_SINGLE_def)
  then show ?thesis
    using d by (simp add: parseSingle_unframed_mine)
qed

text \<open>
  A SINGLE frame addressed to this device whose value differs from the stored setpoint
  by more than 0.001: the value is stored, the dirty flag is set, and one
  acknowledgement with the device id and the value is handed to \<open>sendBLEResponse\<close>,
  whether a peer is connected or not.
\<close>

lemma single_frame_change_is_stored:
  assumes "data = 0xAA # 0x55 # PACKET_TYPE_SINGLE # dt # my_device_id st # vh # vl # rest \<or>
           data = PACKET_TYPE_SINGLE # my_device_id st # dt # vh # vl # pad # rest"
    and "0.001 < \<bar>int16ToFloat (be_int16 vh vl) (ANGLE_SCALE h) - ble_motor_target st\<bar>"
  shows "parseDirectCommandData h data st =
     Some (sendBLEResponse
             (SINGLE (my_device_id st) (int16ToFloat (be_int16 vh vl) (ANGLE_SCALE h)))
             (st\<lparr>ble_motor_target := int16ToFloat (be_int16 vh vl) (ANGLE_SCALE h),
                 new_command := True\<rparr>))"
  using parse_single_mine [OF assms(1)] assms(2) by (simp add: store_target_def Let_def)

text \<open>
  A SINGLE frame addressed to this device whose value is within 0.001 of the stored
  setpoint leaves the setpoint as it is, and one acknowledgement with the device id and
  the stored setpoint is handed to \<open>sendBLEResponse\<close>.
\<close>

lemma single_frame_repeat_keeps_setpoint:
  assumes "data = 0xAA # 0x55 # PACKET_TYPE_SINGLE # dt # my_device_id st # vh # vl # rest \<or>
           data = PACKET_TYPE_SINGLE # my_device_id st # dt # vh # vl # pad # rest"
    and "\<bar>int16ToFloat (be_int16 vh vl) (ANGLE_SCALE h) - ble_motor_target st\<bar> \<le> 0.001"
  shows "map_option ble_motor_target (parseDirectCommandData h data st)
           = Some (ble_motor_target st)"
    and "map_option pTxCharacteristic (parseDirectCommandData h data st)
           = Some (pTxCharacteristic
                     (sendBLEResponse (SINGLE (my_device_id st) (ble_motor_target st)) st))"
  using parse_single_mine [OF assms(1)] assms(2)
  by (simp_all add: store_target_def sendBLEResponse_def Let_def split: option.splits)

text \<open>
  C1 at a repeated frame. Device 6 holds the setpoint 10.0 from the scenario frame
  \<open>AA 55 01 00 06 00 64\<close> (angle scale 10), and the dirty flag is still set:
  \<open>getSerialMotorTarget\<close> (FOC\_Control.cpp, lines 105 and 106), the only reader of the
  flag, has not run yet. The same frame arrives again. The decoded value equals the
  setpoint, and the \<open>else\<close> branch of line 202 assigns \<open>new_command = false\<close>: the flag
  that the claim expects to remain set is cleared, and the consumer will not take up the
  setpoint 10.0. The declaration of the flag (line 11) documents it as "a new control
  command waits to be processed", and the log message of line 203 reads "target
  unchanged, new\_command is not set".
\<close>

theorem repeated_single_frame_clears_pending_flag:
  "new_command (connected_ble_state\<lparr>ble_motor_target := 10, new_command := True\<rparr>)
   \<and> \<bar>int16ToFloat (be_int16 0x00 0x64) 10
        - ble_motor_target (connected_ble_state\<lparr>ble_motor_target := 10, new_command := True\<rparr>)\<bar>
       \<le> 0.001
   \<and> map_option new_command
        (parseDirectCommandData \<lparr>ANGLE_SCALE = 10, VELOCITY_SCALE = 100, MAX_MOTORS = 10\<rparr>
           [0xAA, 0x55, 0x01, 0x00, 0x06, 0x00, 0x64]
           (connected_ble_state\<lparr>ble_motor_target := 10, new_command := True\<rparr>))
       = Some False"
  by (simp add: parse_framed parseSingle_framed_mine connected_ble_state_def initial_ble_state_def
      PACKET_TYPE_SINGLE_def int16ToFloat_def be_int16_def store_target_def sendBLEResponse_def)

section \<open>Addressing, malformed frames and the MULTI forms\<close>

lemma parseSingle_other:
  assumes "data = 0xAA # 0x55 # PACKET_TYPE_SINGLE # dt # target_id # vh # vl # rest \<or>
           data = PACKET_TYPE_SINGLE # target_id # dt # vh # vl # pad # rest"
    and "target_id \<noteq> my_device_id st"
  shows "parseDirectCommandData h data st = Some (st\<lparr>new_command := False\<rparr>)"
  using assms(1)
proof
  assume d: "data = 0xAA # 0x55 # PACKET_TYPE_SINGLE # dt # target_id # vh # vl # rest"
  then have "parseDirectCommandData h data st = parseSingle h True data st"
    by (simp add: parse_framed)
  then show ?thesis
    using d assms(2) by (simp add: parseSingle_def Let_def byte_at_def getMyDeviceID_def)
next
  assume d: "data = PACKET_TYPE_SINGLE # target_id # dt # vh # vl # pad # rest"
  then have "parseDirectCommandData h data st = parseSingle h False data st"
    by (simp add: parse_unframed PACKET_TYPE_SINGLE_def)
  then show ?thesis
    using d assms(2) by (simp add: parseSingle_def Let_def byte_at_def getMyDeviceID_def)
qed

lemma end_id_no_wrap:
  fixes start_id cnt :: uint8
  assumes "1 \<le> cnt" "uint start_id + uint cnt \<le> 256"
  shows "uint (start_id + cnt - 1) = uint start_id + uint cnt - 1"
proof -
  have "1 \<le> uint cnt" using assms(1) by (simp add: word_le_def)
  moreover have "uint start_id \<ge> 0" by simp
  ultimately have r: "0 \<le> uint start_id + uint cnt - 1" "uint start_id + uint cnt - 1 < 256"
    using assms(2) by linarith+
  have "uint (start_id + cnt - 1) = (uint start_id + uint cnt - 1) mod 256"
    by (simp add: uint_word_ariths mod_simps)
  then show ?thesis using r by simp
qed

lemma parseMulti_framed:
  assumes d: "data = [0xAA, 0x55, PACKET_TYPE_MULTI, dt, start_id, cnt] @ vals"
  shows "parseMulti h True data st =
     (let scale = fst (select_scale h dt);
          st0 = st\<lparr>data_scale_type := snd (select_scale h dt)\<rparr>
      in if (1 \<le> start_id \<and> uint start_id \<le> MAX_MOTORS h \<and> 1 \<le> cnt) \<and>
            int (length vals) = uint cnt * 2
         then if my_device_id st < start_id \<or> my_device_id st > start_id + cnt - 1 then Some st0
              else decodeMultiAt scale (6 + (uint (my_device_id st) - uint start_id) * 2) data st0
         else parseMultiLegacy scale True 3 data st0)"
proof -
  obtain scale tag where sc: "select_scale h dt = (scale, tag)"
    by (cases "select_scale h dt")
  show ?thesis
    using d sc by (auto simp add: parseMulti_def Let_def byte_at_def getMyDeviceID_def)
qed

lemma parse_multi_framed:
  assumes d: "data = [0xAA, 0x55, PACKET_TYPE_MULTI, dt, start_id, cnt] @ vals"
  shows "parseDirectCommandData h data st = parseMulti h True data st"
  using d by (simp add: parse_framed PACKET_TYPE_MULTI_def PACKET_TYPE_SINGLE_def)

lemma decodeMultiAt_in_range:
  assumes "0 \<le> off" "off + 2 \<le> int (length data)"
  shows "decodeMultiAt scale off data st =
     Some (let st1 = store_target (int16ToFloat (be_int16 (data ! nat off) (data ! nat (off + 1))) scale) st
           in sendBLEResponse (MULTI (my_device_id st) (ble_motor_target st1)) st1)"
  using assms by (simp add: decodeMultiAt_def Let_def byte_at_def getMyDeviceID_def)

lemma slice_miss_cond:
  fixes my start_id cnt :: uint8
  assumes "1 \<le> cnt"
    and out: "uint my < uint start_id \<or> uint start_id + uint cnt \<le> uint my"
  shows "my < start_id \<or> my > start_id + cnt - 1"
proof (cases "uint my < uint start_id")
  case True
  then show ?thesis by (simp add: word_less_def)
next
  case False
  with out have o: "uint start_id + uint cnt \<le> uint my" by simp
  have "uint my < 256"
    using uint_lt2p [of my] by simp
  with o have "uint start_id + uint cnt \<le> 256" by simp
  with assms(1) have "uint (start_id + cnt - 1) = uint start_id + uint cnt - 1"
    by (rule end_id_no_wrap)
  with o have "uint (start_id + cnt - 1) < uint my" by linarith
  then show ?thesis unfolding word_less_def by blast
qed

lemma multi_slice_miss:
  assumes d: "data = [0xAA, 0x55, PACKET_TYPE_MULTI, dt, start_id, cnt] @ vals"
    and ok: "1 \<le> start_id" "uint start_id \<le> MAX_MOTORS h" "1 \<le> cnt"
    and len: "length vals = 2 * unat cnt"
    and out: "uint (my_device_id st) < uint start_id \<or>
              uint start_id + uint cnt \<le> uint (my_device_id st)"
  shows "parseDirectCommandData h data st =
     Some (st\<lparr>data_scale_type := snd (select_scale h dt)\<rparr>)"
proof -
  have l: "int (length vals) = uint cnt * 2"
    using len by simp
  have miss: "my_device_id st < start_id \<or> my_device_id st > start_id + cnt - 1"
    using ok(3) out by (rule slice_miss_cond)
  have "parseMulti h True data st = Some (st\<lparr>data_scale_type := snd (select_scale h dt)\<rparr>)"
    unfolding parseMulti_framed [OF d] Let_def
    using ok l miss by (simp only: simp_thms if_True)
  then show ?thesis
    using parse_multi_framed [OF d] by simp
qed

text \<open>
  When \<open>start_id + count\<close> does not exceed 256, \<open>end_id\<close> does not wrap and the slice is
  decoded: device \<open>start_id + k\<close> takes the \<open>k\<close>-th entry, divided by the scale of the
  data-type byte.
\<close>

lemma multi_slice_hit:
  assumes d: "data = [0xAA, 0x55, PACKET_TYPE_MULTI, dt, start_id, cnt] @ vals"
    and ok: "1 \<le> start_id" "uint start_id \<le> MAX_MOTORS h" "1 \<le> cnt"
    and len: "length vals = 2 * unat cnt"
    and inside: "unat start_id \<le> unat (my_device_id st)"
            "unat (my_device_id st) < unat start_id + unat cnt"
    and nowrap: "unat start_id + unat cnt \<le> 256"
    and k: "k = unat (my_device_id st) - unat start_id"
  shows "parseDirectCommandData h data st =
     Some (let st0 = st\<lparr>data_scale_type := snd (select_scale h dt)\<rparr>;
               st1 = store_target
                  (int16ToFloat (be_int16 (vals ! (2 * k)) (vals ! (2 * k + 1)))
                     (fst (select_scale h dt))) st0
           in sendBLEResponse (MULTI (my_device_id st) (ble_motor_target st1)) st1)"
proof -
  have u: "uint start_id = int (unat start_id)" "uint cnt = int (unat cnt)"
      "uint (my_device_id st) = int (unat (my_device_id st))"
    by simp_all
  have l: "int (length vals) = uint cnt * 2"
    using len by simp
  have nw: "uint start_id + uint cnt \<le> 256"
    unfolding u using nowrap by linarith
  have e: "uint (start_id + cnt - 1) = uint start_id + uint cnt - 1"
    using ok(3) nw by (rule end_id_no_wrap)
  have "uint start_id \<le> uint (my_device_id st)"
    unfolding u using inside(1) by linarith
  moreover have "uint (my_device_id st) \<le> uint (start_id + cnt - 1)"
    unfolding e unfolding u using inside(2) by linarith
  ultimately have hit: "\<not> (my_device_id st < start_id \<or> my_device_id st > start_id + cnt - 1)"
    unfolding word_less_def by linarith
  have ki: "uint (my_device_id st) - uint start_id = int k"
    unfolding u using k inside(1) by linarith
  have kl: "2 * k + 2 \<le> length vals"
    using k inside len by linarith
  have off: "(0::int) \<le> 6 + int k * 2" "6 + int k * 2 + 2 \<le> int (length data)"
    using d kl by simp_all
  have n1: "data ! nat (6 + int k * 2) = vals ! (2 * k)"
  proof -
    have "nat (6 + int k * 2) = 6 + 2 * k" by simp
    then show ?thesis using d by (simp add: nth_append)
  qed
  have n2: "data ! nat (6 + int k * 2 + 1) = vals ! (2 * k + 1)"
  proof -
    have "nat (6 + int k * 2 + 1) = 6 + (2 * k + 1)" by simp
    then show ?thesis using d by (simp add: nth_append)
  qed
  have "parseMulti h True data st =
      decodeMultiAt (fst (select_scale h dt)) (6 + int k * 2) data
        (st\<lparr>data_scale_type := snd (select_scale h dt)\<rparr>)"
    unfolding parseMulti_framed [OF d] Let_def ki
    using ok l hit by (simp only: simp_thms if_True if_False)
  then have "parseDirectCommandData h data st =
      decodeMultiAt (fst (select_scale h dt)) (6 + int k * 2) data
        (st\<lparr>data_scale_type := snd (select_scale h dt)\<rparr>)"
    using parse_multi_framed [OF d] by simp
  then show ?thesis
    using decodeMultiAt_in_range [OF off] n1 n2 by (simp add: Let_def)
qed

lemma parse_multi_unframed:
  assumes d: "data = PACKET_TYPE_MULTI # dt # rest" and l: "rest \<noteq> []"
  shows "parseDirectCommandData h data st =
     Some (st\<lparr>data_scale_type := snd (select_scale h dt)\<rparr>)"
proof -
  obtain scale tag where sc: "select_scale h dt = (scale, tag)"
    by (cases "select_scale h dt")
  have len: "3 \<le> length data"
    using d l by (cases rest) simp_all
  have "parseDirectCommandData h data st = parseMulti h False data st"
    using d len by (simp add: parse_unframed PACKET_TYPE_MULTI_def PACKET_TYPE_SINGLE_def)
  also have "\<dots> = Some (st\<lparr>data_scale_type := snd (select_scale h dt)\<rparr>)"
    using d sc by (simp add: parseMulti_def parseMultiLegacy_def Let_def byte_at_def)
  finally show ?thesis .
qed

lemma parseMultiLegacy_24:
  assumes "length data = 24"
  shows "parseMultiLegacy scale True 3 data st =
     (if my_device_id st < 1 \<or> my_device_id st > 10 then Some st
      else decodeMultiAt scale (4 + (uint (my_device_id st) - 1) * 2) data st)"
  using assms by (simp add: parseMultiLegacy_def Let_def getMyDeviceID_def)

lemma parseMultiLegacy_not_24:
  assumes "length data \<noteq> 24"
  shows "parseMultiLegacy scale f t data st = Some st"
  using assms by (simp add: parseMultiLegacy_def)

lemma multi_legacy:
  assumes d: "data = [0xAA, 0x55, PACKET_TYPE_MULTI, dt] @ vals"
    and len: "length vals = 20"
    and noslice: "\<not> (1 \<le> vals ! 0 \<and> uint (vals ! 0) \<le> MAX_MOTORS h \<and> vals ! 1 = 9)"
  shows "parseDirectCommandData h data st =
     (let st0 = st\<lparr>data_scale_type := snd (select_scale h dt)\<rparr>
      in if my_device_id st < 1 \<or> my_device_id st > 10 then Some st0
         else decodeMultiAt (fst (select_scale h dt)) (4 + (uint (my_device_id st) - 1) * 2) data st0)"
proof -
  obtain b4 b5 rest where v: "vals = b4 # b5 # rest"
    using len by (cases vals; cases "tl vals") auto
  have r: "length rest = 18"
    using len v by simp
  have d': "data = [0xAA, 0x55, PACKET_TYPE_MULTI, dt, b4, b5] @ rest"
    using d v by simp
  have l24: "length data = 24"
    using d len by simp
  have nine: "(18 = uint b5 * 2) = (b5 = 9)"
  proof
    assume "18 = uint b5 * 2"
    then have "uint b5 = uint (9 :: uint8)" by simp
    then show "b5 = 9" by (simp only: word_uint_eq_iff)
  next
    assume "b5 = 9"
    then show "18 = uint b5 * 2" by simp
  qed
  have ns: "\<not> ((1 \<le> b4 \<and> uint b4 \<le> MAX_MOTORS h \<and> 1 \<le> b5) \<and> int (length rest) = uint b5 * 2)"
    using noslice v r nine by auto
  have "parseMulti h True data st =
      parseMultiLegacy (fst (select_scale h dt)) True 3 data
        (st\<lparr>data_scale_type := snd (select_scale h dt)\<rparr>)"
    unfolding parseMulti_framed [OF d'] Let_def
    using ns by (simp only: if_False)
  then show ?thesis
    using parse_multi_framed [OF d'] parseMultiLegacy_24 [OF l24] by (simp add: Let_def)
qed

lemma multi_legacy_hit:
  assumes d: "data = [0xAA, 0x55, PACKET_TYPE_MULTI, dt] @ vals"
    and len: "length vals = 20"
    and noslice: "\<not> (1 \<le> vals ! 0 \<and> uint (vals ! 0) \<le> MAX_MOTORS h \<and> vals ! 1 = 9)"
    and my: "1 \<le> unat (my_device_id st)" "unat (my_device_id st) \<le> 10"
    and k: "k = unat (my_device_id st) - 1"
  shows "parseDirectCommandData h data st =
     Some (let st0 = st\<lparr>data_scale_type := snd (select_scale h dt)\<rparr>;
               st1 = store_target
                  (int16ToFloat (be_int16 (vals ! (2 * k)) (vals ! (2 * k + 1)))
                     (fst (select_scale h dt))) st0
           in sendBLEResponse (MULTI (my_device_id st) (ble_motor_target st1)) st1)"
proof -
  have u: "uint (my_device_id st) = int (unat (my_device_id st))"
    by simp
  have "1 \<le> uint (my_device_id st)" "uint (my_device_id st) \<le> 10"
    unfolding u using my by linarith+
  then have inr: "\<not> (my_device_id st < 1 \<or> my_device_id st > 10)"
    by (simp add: word_less_def)
  have ki: "uint (my_device_id st) - 1 = int k"
    unfolding u using k my(1) by linarith
  have kl: "2 * k + 2 \<le> length vals"
    using k my len by linarith
  have off: "(0::int) \<le> 4 + int k * 2" "4 + int k * 2 + 2 \<le> int (length data)"
    using d kl by simp_all
  have n1: "data ! nat (4 + int k * 2) = vals ! (2 * k)"
  proof -
    have "nat (4 + int k * 2) = 4 + 2 * k" by simp
    then show ?thesis using d by (simp add: nth_append)
  qed
  have n2: "data ! nat (4 + int k * 2 + 1) = vals ! (2 * k + 1)"
  proof -
    have "nat (4 + int k * 2 + 1) = 4 + (2 * k + 1)" by simp
    then show ?thesis using d by (simp add: nth_append)
  qed
  have "parseDirectCommandData h data st =
      decodeMultiAt (fst (select_scale h dt)) (4 + int k * 2) data
        (st\<lparr>data_scale_type := snd (select_scale h dt)\<rparr>)"
    unfolding multi_legacy [OF d len noslice] Let_def ki
    using inr by (simp only: if_False)
  then show ?thesis
    using decodeMultiAt_in_range [OF off] n1 n2 by (simp add: Let_def)
qed

lemma parseMultiStruct_framed:
  assumes d: "data = [0xAA, 0x55, PACKET_TYPE_MULTI_STRUCT, dt, cnt] @ items"
  shows "parseDirectCommandData h data st =
     (let st0 = st\<lparr>data_scale_type := snd (select_scale h dt)\<rparr>
      in if int (length items) < uint cnt * 3 then Some st0
         else scanItems (fst (select_scale h dt)) dt cnt 5 data 0 st0)"
proof -
  obtain scale tag where sc: "select_scale h dt = (scale, tag)"
    by (cases "select_scale h dt")
  have "parseDirectCommandData h data st = parseMultiStruct h True data st"
    using d
    by (simp add: parse_framed PACKET_TYPE_MULTI_STRUCT_def
        PACKET_TYPE_MULTI_def PACKET_TYPE_SINGLE_def)
  also have "\<dots> =
     (let st0 = st\<lparr>data_scale_type := snd (select_scale h dt)\<rparr>
      in if int (length items) < uint cnt * 3 then Some st0
         else scanItems (fst (select_scale h dt)) dt cnt 5 data 0 st0)"
    using d sc by (simp add: parseMultiStruct_def Let_def byte_at_def)
  finally show ?thesis .
qed

lemma parseMultiStruct_unframed:
  assumes d: "data = [PACKET_TYPE_MULTI_STRUCT, dt, cnt] @ items"
  shows "parseDirectCommandData h data st =
     (let st0 = st\<lparr>data_scale_type := snd (select_scale h dt)\<rparr>
      in if int (length items) < uint cnt * 3 then Some st0
         else scanItems (fst (select_scale h dt)) dt cnt 3 data 0 st0)"
proof -
  obtain scale tag where sc: "select_scale h dt = (scale, tag)"
    by (cases "select_scale h dt")
  have "parseDirectCommandData h data st = parseMultiStruct h False data st"
    using d
    by (simp add: parse_unframed PACKET_TYPE_MULTI_STRUCT_def
        PACKET_TYPE_MULTI_def PACKET_TYPE_SINGLE_def)
  also have "\<dots> =
     (let st0 = st\<lparr>data_scale_type := snd (select_scale h dt)\<rparr>
      in if int (length items) < uint cnt * 3 then Some st0
         else scanItems (fst (select_scale h dt)) dt cnt 3 data 0 st0)"
    using d sc by (simp add: parseMultiStruct_def Let_def byte_at_def)
  finally show ?thesis .
qed

lemma multi_struct_short:
  assumes d: "data = [0xAA, 0x55, PACKET_TYPE_MULTI_STRUCT, dt, cnt] @ items \<or>
              data = [PACKET_TYPE_MULTI_STRUCT, dt, cnt] @ items"
    and short: "length items < 3 * unat cnt"
  shows "parseDirectCommandData h data st =
     Some (st\<lparr>data_scale_type := snd (select_scale h dt)\<rparr>)"
proof -
  have u: "uint cnt = int (unat cnt)" by simp
  have s: "int (length items) < uint cnt * 3"
    unfolding u using short by linarith
  from d show ?thesis
  proof
    assume "data = [0xAA, 0x55, PACKET_TYPE_MULTI_STRUCT, dt, cnt] @ items"
    from parseMultiStruct_framed [OF this] s show ?thesis by (simp add: Let_def)
  next
    assume "data = [PACKET_TYPE_MULTI_STRUCT, dt, cnt] @ items"
    from parseMultiStruct_unframed [OF this] s show ?thesis by (simp add: Let_def)
  qed
qed

lemma multi_struct_no_match:
  assumes d: "data = [0xAA, 0x55, PACKET_TYPE_MULTI_STRUCT, dt, cnt] @ items \<or>
              data = [PACKET_TYPE_MULTI_STRUCT, dt, cnt] @ items"
    and long: "3 * unat cnt \<le> length items"
    and none: "\<forall>i < unat cnt. items ! (3 * i) \<noteq> my_device_id st"
  shows "parseDirectCommandData h data st =
     Some (st\<lparr>data_scale_type := snd (select_scale h dt)\<rparr>)"
proof -
  let ?st0 = "st\<lparr>data_scale_type := snd (select_scale h dt)\<rparr>"
  have u: "uint cnt = int (unat cnt)" by simp
  have s: "\<not> int (length items) < uint cnt * 3"
    unfolding u using long by linarith
  have scan: "scanItems scale dt cnt (int (length pre)) (pre @ items) 0 ?st0 = Some ?st0"
    for scale and pre :: "uint8 list"
  proof (rule scanItems_no_match)
    show "(0::int) \<le> 0" by simp
    show "0 \<le> int (length pre)" by simp
    show "int (length pre) + uint cnt * 3 \<le> int (length (pre @ items))"
      using s by simp
    show "\<forall>j. 0 \<le> j \<and> j < uint cnt \<longrightarrow>
            (pre @ items) ! nat (int (length pre) + j * 3) \<noteq> getMyDeviceID ?st0"
    proof (intro allI impI)
      fix j :: int
      assume j: "0 \<le> j \<and> j < uint cnt"
      then obtain i where i: "j = int i" "i < unat cnt"
        unfolding u by (metis nat_less_iff nonneg_int_cases of_nat_less_iff)
      have "nat (int (length pre) + j * 3) = length pre + 3 * i"
        using i by simp
      then have "(pre @ items) ! nat (int (length pre) + j * 3) = items ! (3 * i)"
        by (simp add: nth_append)
      then show "(pre @ items) ! nat (int (length pre) + j * 3) \<noteq> getMyDeviceID ?st0"
        using none i by (simp add: getMyDeviceID_def)
    qed
  qed
  from d show ?thesis
  proof
    assume a: "data = [0xAA, 0x55, PACKET_TYPE_MULTI_STRUCT, dt, cnt] @ items"
    have "scanItems (fst (select_scale h dt)) dt cnt 5 data 0 ?st0 = Some ?st0"
      using scan [of _ "[0xAA, 0x55, PACKET_TYPE_MULTI_STRUCT, dt, cnt]"] a by simp
    with parseMultiStruct_framed [OF a] s show ?thesis by (simp add: Let_def)
  next
    assume a: "data = [PACKET_TYPE_MULTI_STRUCT, dt, cnt] @ items"
    have "scanItems (fst (select_scale h dt)) dt cnt 3 data 0 ?st0 = Some ?st0"
      using scan [of _ "[PACKET_TYPE_MULTI_STRUCT, dt, cnt]"] a by simp
    with parseMultiStruct_unframed [OF a] s show ?thesis by (simp add: Let_def)
  qed
qed

lemma multi_short:
  assumes d: "data = [0xAA, 0x55, PACKET_TYPE_MULTI, dt, start_id, cnt] @ vals"
    and short: "length vals < 2 * unat cnt"
    and l: "length data \<noteq> 24"
  shows "parseDirectCommandData h data st =
     Some (st\<lparr>data_scale_type := snd (select_scale h dt)\<rparr>)"
proof -
  have u: "uint cnt = int (unat cnt)" by simp
  have s: "int (length vals) \<noteq> uint cnt * 2"
    unfolding u using short by linarith
  have "parseMulti h True data st =
      parseMultiLegacy (fst (select_scale h dt)) True 3 data
        (st\<lparr>data_scale_type := snd (select_scale h dt)\<rparr>)"
    unfolding parseMulti_framed [OF d] Let_def
    using s by (simp only: simp_thms if_False)
  then show ?thesis
    using parse_multi_framed [OF d] parseMultiLegacy_not_24 [OF l] by simp
qed

lemma single_short:
  assumes d: "data = [0xAA, 0x55, PACKET_TYPE_SINGLE] @ rest \<and> length rest < 4 \<or>
              data = PACKET_TYPE_SINGLE # rest \<and> length rest < 5"
  shows "parseDirectCommandData h data st = Some st"
  using d
proof
  assume a: "data = [0xAA, 0x55, PACKET_TYPE_SINGLE] @ rest \<and> length rest < 4"
  then have "parseDirectCommandData h data st = parseSingle h True data st"
    by (simp add: parse_framed)
  then show ?thesis
    using a by (simp add: parseSingle_def)
next
  assume a: "data = PACKET_TYPE_SINGLE # rest \<and> length rest < 5"
  show ?thesis
  proof (cases "3 \<le> length data")
    case False
    then show ?thesis by (simp add: parseDirectCommandData_def)
  next
    case True
    with a have "parseDirectCommandData h data st = parseSingle h False data st"
      by (simp add: parse_unframed PACKET_TYPE_SINGLE_def)
    then show ?thesis
      using a by (simp add: parseSingle_def)
  qed
qed

text \<open>
  C6, as the code has it. A SINGLE frame addressed to this device is decoded with the
  angle scale whatever its data-type byte \<open>dt\<close> is: the value handed to the
  de-duplication step is the big-endian signed value \<open>VH VL\<close> divided by \<open>ANGLE_SCALE\<close>,
  and \<open>data_scale_type\<close> is not written. The data-type byte is read and logged only.
\<close>

theorem single_frame_scaled_by_angle_scale:
  assumes "data = 0xAA # 0x55 # PACKET_TYPE_SINGLE # dt # my_device_id st # vh # vl # rest \<or>
           data = PACKET_TYPE_SINGLE # my_device_id st # dt # vh # vl # pad # rest"
  shows "parseDirectCommandData h data st =
     Some (let st1 = store_target (real_of_int (sint (be_int16 vh vl)) / ANGLE_SCALE h) st
           in sendBLEResponse (SINGLE (my_device_id st) (ble_motor_target st1)) st1)"
  using parse_single_mine [OF assms] by (simp add: int16ToFloat_def)

text \<open>A SINGLE frame tagged as current (2) with raw value 100 stores 100 / 10.\<close>

theorem single_frame_scaled_by_angle_scale_witness:
  "parseDirectCommandData \<lparr>ANGLE_SCALE = 10, VELOCITY_SCALE = 100, MAX_MOTORS = 10\<rparr>
     [0xAA, 0x55, 0x01, 0x02, 0x06, 0x00, 0x64] connected_ble_state
   = Some (connected_ble_state\<lparr>ble_motor_target := 10, new_command := True,
             pTxCharacteristic := Some [SINGLE 6 10]\<rparr>)"
  using single_frame_scaled_by_angle_scale [of "[0xAA, 0x55, 0x01, 0x02, 0x06, 0x00, 0x64]"
      2 connected_ble_state 0 "0x64" "[]" 0
      "\<lparr>ANGLE_SCALE = 10, VELOCITY_SCALE = 100, MAX_MOTORS = 10\<rparr>"]
  by (simp add: connected_ble_state_def initial_ble_state_def PACKET_TYPE_SINGLE_def
      be_int16_def store_target_def sendBLEResponse_def)

text \<open>
  Against C6 as stated: with the current tag the claim expects 100 / 1000 and with the
  velocity tag 100 / 100, and the decoder stores 100 / 10 in both cases.
\<close>

theorem single_frame_ignores_data_type:
  "map_option ble_motor_target
     (parseDirectCommandData \<lparr>ANGLE_SCALE = 10, VELOCITY_SCALE = 100, MAX_MOTORS = 10\<rparr>
        [0xAA, 0x55, 0x01, DATA_TYPE_CURRENT, 0x06, 0x00, 0x64] connected_ble_state)
     = Some 10
   \<and> int16ToFloat (be_int16 0x00 0x64) 1000 = 1 / 10
   \<and> map_option ble_motor_target
     (parseDirectCommandData \<lparr>ANGLE_SCALE = 10, VELOCITY_SCALE = 100, MAX_MOTORS = 10\<rparr>
        [0xAA, 0x55, 0x01, DATA_TYPE_VELOCITY, 0x06, 0x00, 0x64] connected_ble_state)
     = Some 10
   \<and> int16ToFloat (be_int16 0x00 0x64) 100 = 1"
  by (simp add: parse_framed parseSingle_framed_mine connected_ble_state_def initial_ble_state_def
      PACKET_TYPE_SINGLE_def int16ToFloat_def be_int16_def store_target_def sendBLEResponse_def)

text \<open>
  C2 at a SINGLE frame for another device. Device 6 holds the setpoint 10.0 with the
  dirty flag still set when \<open>AA 55 01 00 07 00 64\<close>, a SINGLE frame for device 7,
  arrives. Under the comment "not for this device: ignore, send nothing back" line 180
  assigns \<open>new_command = false\<close>: no acknowledgement is sent and the setpoint stays, but
  the dirty flag that the claim expects to be as before is cleared. The other miss paths
  return without touching the flag (lines 261 to 264 and 421 to 424): in the same state
  a velocity slice for devices 1 and 2 and a MULTI\_STRUCT frame for devices 1 and 2
  leave it set.
\<close>

theorem single_miss_clears_pending_flag:
  "new_command (connected_ble_state\<lparr>ble_motor_target := 10, new_command := True\<rparr>)
   \<and> parseDirectCommandData \<lparr>ANGLE_SCALE = 10, VELOCITY_SCALE = 100, MAX_MOTORS = 10\<rparr>
        [0xAA, 0x55, 0x01, 0x00, 0x07, 0x00, 0x64]
        (connected_ble_state\<lparr>ble_motor_target := 10, new_command := True\<rparr>)
       = Some (connected_ble_state\<lparr>ble_motor_target := 10, new_command := False\<rparr>)
   \<and> map_option new_command
        (parseDirectCommandData \<lparr>ANGLE_SCALE = 10, VELOCITY_SCALE = 100, MAX_MOTORS = 10\<rparr>
           [0xAA, 0x55, 0x02, 0x01, 0x01, 0x02, 0x00, 0x64, 0x00, 0x65]
           (connected_ble_state\<lparr>ble_motor_target := 10, new_command := True\<rparr>))
       = Some True
   \<and> map_option new_command
        (parseDirectCommandData \<lparr>ANGLE_SCALE = 10, VELOCITY_SCALE = 100, MAX_MOTORS = 10\<rparr>
           [0xAA, 0x55, 0x03, 0x02, 0x02, 0x01, 0x00, 0x64, 0x02, 0x00, 0x65]
           (connected_ble_state\<lparr>ble_motor_target := 10, new_command := True\<rparr>))
       = Some True"
proof -
  let ?h = "\<lparr>ANGLE_SCALE = 10, VELOCITY_SCALE = 100, MAX_MOTORS = 10\<rparr>"
  let ?st = "connected_ble_state\<lparr>ble_motor_target := 10, new_command := True\<rparr>"
  have a: "parseDirectCommandData ?h [0xAA, 0x55, 0x01, 0x00, 0x07, 0x00, 0x64] ?st
       = Some (?st\<lparr>new_command := False\<rparr>)"
    by (rule parseSingle_other [of _ 0 7 0 "0x64" "[]"])
       (simp_all add: PACKET_TYPE_SINGLE_def connected_ble_state_def initial_ble_state_def)
  have b: "parseDirectCommandData ?h
           [0xAA, 0x55, 0x02, 0x01, 0x01, 0x02, 0x00, 0x64, 0x00, 0x65] ?st
       = Some (?st\<lparr>data_scale_type := snd (select_scale ?h 1)\<rparr>)"
    by (rule multi_slice_miss [of _ 1 1 2 "[0x00, 0x64, 0x00, 0x65]"])
       (simp_all add: PACKET_TYPE_MULTI_def connected_ble_state_def initial_ble_state_def)
  have c: "parseDirectCommandData ?h
           [0xAA, 0x55, 0x03, 0x02, 0x02, 0x01, 0x00, 0x64, 0x02, 0x00, 0x65] ?st
       = Some (?st\<lparr>data_scale_type := snd (select_scale ?h 2)\<rparr>)"
    by (rule multi_struct_no_match [of _ 2 2 "[0x01, 0x00, 0x64, 0x02, 0x00, 0x65]"])
       (simp_all add: PACKET_TYPE_MULTI_STRUCT_def connected_ble_state_def
          initial_ble_state_def less_2_cases_iff)
  show ?thesis
    unfolding a b c by (simp add: connected_ble_state_def initial_ble_state_def)
qed

text \<open>
  C3, as the code has it. No payload makes the decoder read past the received length.
  A SINGLE frame shorter than its fixed length changes nothing. A MULTI\_STRUCT frame whose
  \<open>count\<close> needs more entry bytes than were received, and a framed MULTI frame whose
  \<open>count\<close> needs more value bytes than were received and whose total length is not 24,
  produce no acknowledgement and leave the setpoint, the dirty flag and
  \<open>last_multi_struct_cmd\<close> as they were, but \<open>data_scale_type\<close> has already been set from
  the data-type byte. (A framed MULTI payload of exactly 24 bytes is decoded in the legacy
  form.)
\<close>

theorem malformed_frames_are_dropped:
  "parseDirectCommandData h data st \<noteq> None
   \<and> (data = [0xAA, 0x55, PACKET_TYPE_SINGLE] @ rest \<and> length rest < 4 \<or>
      data = PACKET_TYPE_SINGLE # rest \<and> length rest < 5
    \<longrightarrow> parseDirectCommandData h data st = Some st)
   \<and> ((data = [0xAA, 0x55, PACKET_TYPE_MULTI_STRUCT, dt, cnt] @ items \<or>
       data = [PACKET_TYPE_MULTI_STRUCT, dt, cnt] @ items) \<and>
      length items < 3 * unat cnt
    \<longrightarrow> parseDirectCommandData h data st =
          Some (st\<lparr>data_scale_type := snd (select_scale h dt)\<rparr>))
   \<and> (data = [0xAA, 0x55, PACKET_TYPE_MULTI, dt, start_id, cnt] @ vals \<and>
      length vals < 2 * unat cnt \<and> length data \<noteq> 24
    \<longrightarrow> parseDirectCommandData h data st =
          Some (st\<lparr>data_scale_type := snd (select_scale h dt)\<rparr>))"
proof (intro conjI impI)
  show "parseDirectCommandData h data st \<noteq> None"
    using parse_safe [of h data st] by auto
next
  assume "data = [0xAA, 0x55, PACKET_TYPE_SINGLE] @ rest \<and> length rest < 4 \<or>
      data = PACKET_TYPE_SINGLE # rest \<and> length rest < 5"
  then show "parseDirectCommandData h data st = Some st"
    by (rule single_short)
next
  assume a: "(data = [0xAA, 0x55, PACKET_TYPE_MULTI_STRUCT, dt, cnt] @ items \<or>
       data = [PACKET_TYPE_MULTI_STRUCT, dt, cnt] @ items) \<and>
      length items < 3 * unat cnt"
  show "parseDirectCommandData h data st =
          Some (st\<lparr>data_scale_type := snd (select_scale h dt)\<rparr>)"
    by (rule multi_struct_short [of data dt cnt items]) (use a in blast)+
next
  assume a: "data = [0xAA, 0x55, PACKET_TYPE_MULTI, dt, start_id, cnt] @ vals \<and>
      length vals < 2 * unat cnt \<and> length data \<noteq> 24"
  show "parseDirectCommandData h data st =
          Some (st\<lparr>data_scale_type := snd (select_scale h dt)\<rparr>)"
    by (rule multi_short [of data dt start_id cnt vals]) (use a in blast)+
qed

text \<open>
  A framed SINGLE frame of six bytes, a MULTI\_STRUCT frame declaring five entries and
  carrying one, and a MULTI slice declaring three values and carrying one.
\<close>

theorem malformed_frames_are_dropped_witness:
  "parseDirectCommandData \<lparr>ANGLE_SCALE = 10, VELOCITY_SCALE = 100, MAX_MOTORS = 10\<rparr>
     [0xAA, 0x55, 0x01, 0x00, 0x06, 0x00] connected_ble_state
   = Some connected_ble_state
   \<and> parseDirectCommandData \<lparr>ANGLE_SCALE = 10, VELOCITY_SCALE = 100, MAX_MOTORS = 10\<rparr>
     [0xAA, 0x55, 0x03, 0x01, 0x05, 0x06, 0x00, 0x64] connected_ble_state
   = Some (connected_ble_state\<lparr>data_scale_type := 1\<rparr>)
   \<and> parseDirectCommandData \<lparr>ANGLE_SCALE = 10, VELOCITY_SCALE = 100, MAX_MOTORS = 10\<rparr>
     [0xAA, 0x55, 0x02, 0x02, 0x06, 0x03, 0x00, 0x64] connected_ble_state
   = Some (connected_ble_state\<lparr>data_scale_type := 2\<rparr>)"
  using
    malformed_frames_are_dropped [where data = "[0xAA, 0x55, 0x01, 0x00, 0x06, 0x00]"
      and rest = "[0x00, 0x06, 0x00]"
      and st = connected_ble_state
      and h = "\<lparr>ANGLE_SCALE = 10, VELOCITY_SCALE = 100, MAX_MOTORS = 10\<rparr>"]
    malformed_frames_are_dropped [where data = "[0xAA, 0x55, 0x03, 0x01, 0x05, 0x06, 0x00, 0x64]"
      and dt = 1 and cnt = 5 and items = "[0x06, 0x00, 0x64]"
      and st = connected_ble_state
      and h = "\<lparr>ANGLE_SCALE = 10, VELOCITY_SCALE = 100, MAX_MOTORS = 10\<rparr>"]
    malformed_frames_are_dropped [where data = "[0xAA, 0x55, 0x02, 0x02, 0x06, 0x03, 0x00, 0x64]"
      and dt = 2 and start_id = 6 and cnt = 3 and vals = "[0x00, 0x64]"
      and st = connected_ble_state
      and h = "\<lparr>ANGLE_SCALE = 10, VELOCITY_SCALE = 100, MAX_MOTORS = 10\<rparr>"]
  by (simp add: PACKET_TYPE_SINGLE_def
      PACKET_TYPE_MULTI_def PACKET_TYPE_MULTI_STRUCT_def select_scale_def
      DATA_TYPE_VELOCITY_def DATA_TYPE_CURRENT_def)

text \<open>
  Against C3 as stated: a velocity MULTI\_STRUCT frame that declares five entries and
  carries one is dropped, but \<open>data_scale_type\<close> changes from 0 to 1.
\<close>

theorem malformed_struct_frame_sets_scale_type:
  "data_scale_type connected_ble_state = 0
   \<and> map_option data_scale_type
        (parseDirectCommandData \<lparr>ANGLE_SCALE = 10, VELOCITY_SCALE = 100, MAX_MOTORS = 10\<rparr>
           [0xAA, 0x55, 0x03, 0x01, 0x05, 0x06, 0x00, 0x64] connected_ble_state)
       = Some 1"
proof -
  have b: "parseDirectCommandData \<lparr>ANGLE_SCALE = 10, VELOCITY_SCALE = 100, MAX_MOTORS = 10\<rparr>
           [0xAA, 0x55, 0x03, 0x01, 0x05, 0x06, 0x00, 0x64] connected_ble_state
       = Some (connected_ble_state\<lparr>data_scale_type :=
            snd (select_scale \<lparr>ANGLE_SCALE = 10, VELOCITY_SCALE = 100, MAX_MOTORS = 10\<rparr> 1)\<rparr>)"
    by (rule multi_struct_short [of _ 1 5 "[0x06, 0x00, 0x64]"])
       (simp_all add: PACKET_TYPE_MULTI_STRUCT_def)
  show ?thesis
    unfolding b
    by (simp add: connected_ble_state_def initial_ble_state_def select_scale_def DATA_TYPE_VELOCITY_def)
qed

text \<open>
  C4 at the input \<open>AA 55 02 00 06 FB\<close> followed by 251 values (508 bytes): start id 6,
  count 251, length exactly \<open>6 + 2 * 251\<close>, and device 6 is the first of the slice. Its
  entry \<open>64 64\<close> decodes to 2570.0, far from the setpoint 0, but \<open>end_id\<close> wraps to 0 and
  the frame is ignored: nothing is stored and nothing is acknowledged.
\<close>

theorem slice_end_id_wraps:
  "length ([0xAA, 0x55, 0x02, 0x00, 0x06, 0xFB] @ replicate 502 (0x64 :: uint8)) = 6 + 2 * 251
   \<and> uint (0x06 :: uint8) \<le> uint (my_device_id connected_ble_state)
   \<and> uint (my_device_id connected_ble_state) < uint (0x06 :: uint8) + uint (0xFB :: uint8)
   \<and> \<bar>int16ToFloat (be_int16 0x64 0x64) 10 - ble_motor_target connected_ble_state\<bar> > 0.001
   \<and> parseDirectCommandData \<lparr>ANGLE_SCALE = 10, VELOCITY_SCALE = 100, MAX_MOTORS = 10\<rparr>
       ([0xAA, 0x55, 0x02, 0x00, 0x06, 0xFB] @ replicate 502 0x64) connected_ble_state
     = Some connected_ble_state"
proof -
  have "parseMulti \<lparr>ANGLE_SCALE = 10, VELOCITY_SCALE = 100, MAX_MOTORS = 10\<rparr> True
     ([0xAA, 0x55, PACKET_TYPE_MULTI, 0x00, 0x06, 0xFB] @ replicate 502 0x64) connected_ble_state
     = Some connected_ble_state"
    unfolding parseMulti_framed [OF refl]
    by (simp add: Let_def select_scale_def DATA_TYPE_VELOCITY_def DATA_TYPE_CURRENT_def
        connected_ble_state_def initial_ble_state_def)
  then have "parseDirectCommandData \<lparr>ANGLE_SCALE = 10, VELOCITY_SCALE = 100, MAX_MOTORS = 10\<rparr>
     ([0xAA, 0x55, PACKET_TYPE_MULTI, 0x00, 0x06, 0xFB] @ replicate 502 0x64) connected_ble_state
     = Some connected_ble_state"
    using parse_multi_framed [OF refl] by simp
  then show ?thesis
    by (simp add: PACKET_TYPE_MULTI_def connected_ble_state_def initial_ble_state_def
        int16ToFloat_def be_int16_def)
qed

text \<open>
  C5, as the code has it. The legacy form is accepted only with the frame header: a
  24-byte payload \<open>AA 55 02 DT V1 .. V10\<close> that is not also a valid slice (its bytes 4 and 5
  are not a start id within \<open>[1, MAX_MOTORS]\<close> followed by the count 9). With the velocity
  tag, device 3 sets \<open>data_scale_type\<close> to 1 and hands the third entry divided by the
  velocity scale to the de-duplication step and the acknowledgement; a device whose id is
  outside \<open>[1, 10]\<close> only sets \<open>data_scale_type\<close> to 1. An unframed MULTI payload is never
  decoded: it only sets \<open>data_scale_type\<close> from its data-type byte.
\<close>

theorem legacy_multi_velocity:
  "(data = [0xAA, 0x55, PACKET_TYPE_MULTI, DATA_TYPE_VELOCITY] @ vals \<and> length vals = 20 \<and>
    \<not> (1 \<le> vals ! 0 \<and> uint (vals ! 0) \<le> MAX_MOTORS h \<and> vals ! 1 = 9) \<and>
    my_device_id st = 3
    \<longrightarrow> parseDirectCommandData h data st =
          Some (let st0 = st\<lparr>data_scale_type := 1\<rparr>;
                    st1 = store_target
                            (int16ToFloat (be_int16 (vals ! 4) (vals ! 5)) (VELOCITY_SCALE h)) st0
                in sendBLEResponse (MULTI 3 (ble_motor_target st1)) st1))
   \<and> (data = [0xAA, 0x55, PACKET_TYPE_MULTI, DATA_TYPE_VELOCITY] @ vals \<and> length vals = 20 \<and>
      \<not> (1 \<le> vals ! 0 \<and> uint (vals ! 0) \<le> MAX_MOTORS h \<and> vals ! 1 = 9) \<and>
      (my_device_id st < 1 \<or> 10 < my_device_id st)
    \<longrightarrow> parseDirectCommandData h data st = Some (st\<lparr>data_scale_type := 1\<rparr>))
   \<and> (data = PACKET_TYPE_MULTI # dt # rest \<and> rest \<noteq> []
    \<longrightarrow> parseDirectCommandData h data st =
          Some (st\<lparr>data_scale_type := snd (select_scale h dt)\<rparr>))"
proof (intro conjI impI)
  assume a: "data = [0xAA, 0x55, PACKET_TYPE_MULTI, DATA_TYPE_VELOCITY] @ vals \<and> length vals = 20 \<and>
    \<not> (1 \<le> vals ! 0 \<and> uint (vals ! 0) \<le> MAX_MOTORS h \<and> vals ! 1 = 9) \<and>
    my_device_id st = 3"
  then have three: "my_device_id st = 3" by blast
  have "parseDirectCommandData h data st =
     Some (let st0 = st\<lparr>data_scale_type := snd (select_scale h DATA_TYPE_VELOCITY)\<rparr>;
               st1 = store_target
                  (int16ToFloat (be_int16 (vals ! (2 * 2)) (vals ! (2 * 2 + 1)))
                     (fst (select_scale h DATA_TYPE_VELOCITY))) st0
           in sendBLEResponse (MULTI (my_device_id st) (ble_motor_target st1)) st1)"
    by (rule multi_legacy_hit [of data DATA_TYPE_VELOCITY vals h st 2])
       (use a in \<open>simp_all add: three\<close>)
  then show "parseDirectCommandData h data st =
          Some (let st0 = st\<lparr>data_scale_type := 1\<rparr>;
                    st1 = store_target
                            (int16ToFloat (be_int16 (vals ! 4) (vals ! 5)) (VELOCITY_SCALE h)) st0
                in sendBLEResponse (MULTI 3 (ble_motor_target st1)) st1)"
    by (simp add: select_scale_def three)
next
  assume a: "data = [0xAA, 0x55, PACKET_TYPE_MULTI, DATA_TYPE_VELOCITY] @ vals \<and> length vals = 20 \<and>
      \<not> (1 \<le> vals ! 0 \<and> uint (vals ! 0) \<le> MAX_MOTORS h \<and> vals ! 1 = 9) \<and>
      (my_device_id st < 1 \<or> 10 < my_device_id st)"
  have "parseDirectCommandData h data st =
     (let st0 = st\<lparr>data_scale_type := snd (select_scale h DATA_TYPE_VELOCITY)\<rparr>
      in if my_device_id st < 1 \<or> my_device_id st > 10 then Some st0
         else decodeMultiAt (fst (select_scale h DATA_TYPE_VELOCITY))
                (4 + (uint (my_device_id st) - 1) * 2) data st0)"
    by (rule multi_legacy [of data DATA_TYPE_VELOCITY vals h st]) (use a in blast)+
  then show "parseDirectCommandData h data st = Some (st\<lparr>data_scale_type := 1\<rparr>)"
    using a by (simp add: select_scale_def Let_def)
next
  assume "data = PACKET_TYPE_MULTI # dt # rest \<and> rest \<noteq> []"
  then show "parseDirectCommandData h data st =
          Some (st\<lparr>data_scale_type := snd (select_scale h dt)\<rparr>)"
    using parse_multi_unframed by blast
qed

text \<open>
  Ten velocity entries, the third being 100: framed for device 3, framed for device 11,
  and unframed for device 3.
\<close>

theorem legacy_multi_velocity_witness:
  "parseDirectCommandData \<lparr>ANGLE_SCALE = 10, VELOCITY_SCALE = 100, MAX_MOTORS = 10\<rparr>
     ([0xAA, 0x55, 0x02, 0x01] @
      [0x00, 0x0A, 0x00, 0x14, 0x00, 0x64, 0x00, 0x28, 0x00, 0x32,
       0x00, 0x3C, 0x00, 0x46, 0x00, 0x50, 0x00, 0x5A, 0x00, 0x60])
     (connected_ble_state\<lparr>my_device_id := 3\<rparr>)
   = Some (connected_ble_state\<lparr>my_device_id := 3, data_scale_type := 1, ble_motor_target := 1,
             new_command := True, pTxCharacteristic := Some [MULTI 3 1]\<rparr>)
   \<and> parseDirectCommandData \<lparr>ANGLE_SCALE = 10, VELOCITY_SCALE = 100, MAX_MOTORS = 10\<rparr>
     ([0xAA, 0x55, 0x02, 0x01] @
      [0x00, 0x0A, 0x00, 0x14, 0x00, 0x64, 0x00, 0x28, 0x00, 0x32,
       0x00, 0x3C, 0x00, 0x46, 0x00, 0x50, 0x00, 0x5A, 0x00, 0x60])
     (connected_ble_state\<lparr>my_device_id := 11\<rparr>)
   = Some (connected_ble_state\<lparr>my_device_id := 11, data_scale_type := 1\<rparr>)
   \<and> parseDirectCommandData \<lparr>ANGLE_SCALE = 10, VELOCITY_SCALE = 100, MAX_MOTORS = 10\<rparr>
     [0x02, 0x01, 0x00, 0x0A, 0x00, 0x14, 0x00, 0x64, 0x00, 0x28, 0x00, 0x32,
      0x00, 0x3C, 0x00, 0x46, 0x00, 0x50, 0x00, 0x5A, 0x00, 0x60]
     (connected_ble_state\<lparr>my_device_id := 3\<rparr>)
   = Some (connected_ble_state\<lparr>my_device_id := 3, data_scale_type := 1\<rparr>)"
  using
    legacy_multi_velocity [where data = "[0xAA, 0x55, 0x02, 0x01] @
      [0x00, 0x0A, 0x00, 0x14, 0x00, 0x64, 0x00, 0x28, 0x00, 0x32,
       0x00, 0x3C, 0x00, 0x46, 0x00, 0x50, 0x00, 0x5A, 0x00, 0x60]"
      and vals = "[0x00, 0x0A, 0x00, 0x14, 0x00, 0x64, 0x00, 0x28, 0x00, 0x32,
       0x00, 0x3C, 0x00, 0x46, 0x00, 0x50, 0x00, 0x5A, 0x00, 0x60]"
      and st = "connected_ble_state\<lparr>my_device_id := 3\<rparr>"
      and h = "\<lparr>ANGLE_SCALE = 10, VELOCITY_SCALE = 100, MAX_MOTORS = 10\<rparr>"]
    legacy_multi_velocity [where data = "[0xAA, 0x55, 0x02, 0x01] @
      [0x00, 0x0A, 0x00, 0x14, 0x00, 0x64, 0x00, 0x28, 0x00, 0x32,
       0x00, 0x3C, 0x00, 0x46, 0x00, 0x50, 0x00, 0x5A, 0x00, 0x60]"
      and vals = "[0x00, 0x0A, 0x00, 0x14, 0x00, 0x64, 0x00, 0x28, 0x00, 0x32,
       0x00, 0x3C, 0x00, 0x46, 0x00, 0x50, 0x00, 0x5A, 0x00, 0x60]"
      and st = "connected_ble_state\<lparr>my_device_id := 11\<rparr>"
      and h = "\<lparr>ANGLE_SCALE = 10, VELOCITY_SCALE = 100, MAX_MOTORS = 10\<rparr>"]
    legacy_multi_velocity [where data = "[0x02, 0x01, 0x00, 0x0A, 0x00, 0x14, 0x00, 0x64, 0x00, 0x28, 0x00, 0x32,
      0x00, 0x3C, 0x00, 0x46, 0x00, 0x50, 0x00, 0x5A, 0x00, 0x60]"
      and dt = 1
      and rest = "[0x00, 0x0A, 0x00, 0x14, 0x00, 0x64, 0x00, 0x28, 0x00, 0x32,
       0x00, 0x3C, 0x00, 0x46, 0x00, 0x50, 0x00, 0x5A, 0x00, 0x60]"
      and st = "connected_ble_state\<lparr>my_device_id := 3\<rparr>"
      and h = "\<lparr>ANGLE_SCALE = 10, VELOCITY_SCALE = 100, MAX_MOTORS = 10\<rparr>"]
  by (simp add: connected_ble_state_def initial_ble_state_def
      PACKET_TYPE_MULTI_def select_scale_def DATA_TYPE_VELOCITY_def
      int16ToFloat_def be_int16_def store_target_def sendBLEResponse_def)

text \<open>
  Against C5 as stated: the unframed legacy payload leaves the setpoint of device 3 at 0
  although its third entry is 100 / 100 = 1, and it changes \<open>data_scale_type\<close> of device
  11 from 0 to 1.
\<close>

theorem unframed_legacy_multi_is_dropped:
  "map_option ble_motor_target
     (parseDirectCommandData \<lparr>ANGLE_SCALE = 10, VELOCITY_SCALE = 100, MAX_MOTORS = 10\<rparr>
        [0x02, 0x01, 0x00, 0x0A, 0x00, 0x14, 0x00, 0x64, 0x00, 0x28, 0x00, 0x32,
         0x00, 0x3C, 0x00, 0x46, 0x00, 0x50, 0x00, 0x5A, 0x00, 0x60]
        (connected_ble_state\<lparr>my_device_id := 3\<rparr>))
     = Some 0
   \<and> int16ToFloat (be_int16 0x00 0x64) 100 = 1
   \<and> data_scale_type (connected_ble_state\<lparr>my_device_id := 11\<rparr>) = 0
   \<and> map_option data_scale_type
     (parseDirectCommandData \<lparr>ANGLE_SCALE = 10, VELOCITY_SCALE = 100, MAX_MOTORS = 10\<rparr>
        [0x02, 0x01, 0x00, 0x0A, 0x00, 0x14, 0x00, 0x64, 0x00, 0x28, 0x00, 0x32,
         0x00, 0x3C, 0x00, 0x46, 0x00, 0x50, 0x00, 0x5A, 0x00, 0x60]
        (connected_ble_state\<lparr>my_device_id := 11\<rparr>))
     = Some 1"
proof -
  have b: "parseDirectCommandData \<lparr>ANGLE_SCALE = 10, VELOCITY_SCALE = 100, MAX_MOTORS = 10\<rparr>
        [0x02, 0x01, 0x00, 0x0A, 0x00, 0x14, 0x00, 0x64, 0x00, 0x28, 0x00, 0x32,
         0x00, 0x3C, 0x00, 0x46, 0x00, 0x50, 0x00, 0x5A, 0x00, 0x60] st
       = Some (st\<lparr>data_scale_type :=
            snd (select_scale \<lparr>ANGLE_SCALE = 10, VELOCITY_SCALE = 100, MAX_MOTORS = 10\<rparr> 1)\<rparr>)"
    for st
    by (rule parse_multi_unframed [of _ 1 "[0x00, 0x0A, 0x00, 0x14, 0x00, 0x64, 0x00, 0x28, 0x00, 0x32,
         0x00, 0x3C, 0x00, 0x46, 0x00, 0x50, 0x00, 0x5A, 0x00, 0x60]"])
       (simp_all add: PACKET_TYPE_MULTI_def)
  show ?thesis
    unfolding b
    by (simp add: connected_ble_state_def initial_ble_state_def select_scale_def
        DATA_TYPE_VELOCITY_def int16ToFloat_def be_int16_def)
qed

section \<open>FOC\_Core.cpp in exact arithmetic\<close>

text \<open>
  \<open>normalizeAngle\<close> subtracts the multiple of \<open>2 * pi\<close> below its argument, so over the
  reals it is periodic and its value lies in \<open>[0, 2 * pi)\<close>.
\<close>

lemma normalizeAngle_floor:
  "normalizeAngle x = x - 2 * pi * real_of_int \<lfloor>x / (2 * pi)\<rfloor>"
proof -
  define q where "q = x / (2 * pi)"
  have x: "x = q * (2 * pi)" by (simp add: q_def)
  show ?thesis
  proof (cases "0 \<le> q")
    case True
    have "real_of_int \<lfloor>q\<rfloor> \<le> q" by simp
    then have "real_of_int \<lfloor>q\<rfloor> * (2 * pi) \<le> q * (2 * pi)"
      by (intro mult_right_mono) simp_all
    then have "0 \<le> x - real_of_int \<lfloor>q\<rfloor> * (2 * pi)"
      using x by simp
    then show ?thesis
      using True by (simp add: normalizeAngle_def fmod_def trunc_def q_def [symmetric] Let_def)
  next
    case False
    have c: "q \<le> real_of_int \<lceil>q\<rceil>" by simp
    then have "q * (2 * pi) \<le> real_of_int \<lceil>q\<rceil> * (2 * pi)"
      by (intro mult_right_mono) simp_all
    then have le: "x - real_of_int \<lceil>q\<rceil> * (2 * pi) \<le> 0"
      using x by simp
    show ?thesis
    proof (cases "q = real_of_int \<lfloor>q\<rfloor>")
      case True
      then have "\<lceil>q\<rceil> = \<lfloor>q\<rfloor>" by (simp add: ceiling_altdef)
      moreover have "x - real_of_int \<lfloor>q\<rfloor> * (2 * pi) = 0"
        using x True by (metis diff_self)
      ultimately show ?thesis
        using False by (simp add: normalizeAngle_def fmod_def trunc_def q_def [symmetric] Let_def)
    next
      case F: False
      then have ce: "\<lceil>q\<rceil> = \<lfloor>q\<rfloor> + 1" by (simp add: ceiling_altdef)
      have "q < real_of_int \<lceil>q\<rceil>"
        using F c ce by (metis ceiling_altdef le_less of_int_floor_cancel floor_of_int)
      then have "q * (2 * pi) < real_of_int \<lceil>q\<rceil> * (2 * pi)"
        by (intro mult_strict_right_mono) simp_all
      then have lt: "\<not> 0 \<le> x - real_of_int \<lceil>q\<rceil> * (2 * pi)"
        using x by simp
      have "x - real_of_int \<lceil>q\<rceil> * (2 * pi) + 2 * pi = x - 2 * pi * real_of_int \<lfloor>q\<rfloor>"
        unfolding ce by (simp add: algebra_simps)
      then show ?thesis
        using False lt by (simp add: normalizeAngle_def fmod_def trunc_def q_def [symmetric] Let_def)
    qed
  qed
qed

lemma normalizeAngle_range: "0 \<le> normalizeAngle x \<and> normalizeAngle x < 2 * pi"
proof -
  define q where "q = x / (2 * pi)"
  have x: "x = q * (2 * pi)" by (simp add: q_def)
  have "real_of_int \<lfloor>q\<rfloor> \<le> q" "q < real_of_int \<lfloor>q\<rfloor> + 1" by linarith+
  then have "real_of_int \<lfloor>q\<rfloor> * (2 * pi) \<le> q * (2 * pi)"
    "q * (2 * pi) < (real_of_int \<lfloor>q\<rfloor> + 1) * (2 * pi)"
    by (simp_all add: mult_right_mono)
  then show ?thesis
    unfolding normalizeAngle_floor q_def [symmetric] using x by (simp add: algebra_simps)
qed

lemma normalizeAngle_periodic:
  "normalizeAngle (x + 2 * pi * real_of_int k) = normalizeAngle x"
proof -
  have "(x + 2 * pi * real_of_int k) / (2 * pi) = x / (2 * pi) + real_of_int k"
    by (simp add: field_simps)
  then have "\<lfloor>(x + 2 * pi * real_of_int k) / (2 * pi)\<rfloor> = \<lfloor>x / (2 * pi)\<rfloor> + k"
    by simp
  then show ?thesis
    unfolding normalizeAngle_floor by (simp add: algebra_simps)
qed

lemma normalizeAngle_id: "0 \<le> x \<Longrightarrow> x < 2 * pi \<Longrightarrow> normalizeAngle x = x"
proof -
  assume a: "0 \<le> x" "x < 2 * pi"
  then have "0 \<le> x / (2 * pi)" "x / (2 * pi) < 1" by simp_all
  then have "\<lfloor>x / (2 * pi)\<rfloor> = 0" by (simp add: floor_eq_iff)
  then show ?thesis unfolding normalizeAngle_floor by simp
qed

text \<open>
  In exact arithmetic \<open>electricalAngle\<close> is the normalised difference of the scaled
  sensor angle and the stored offset, and lies in \<open>[0, 2 * pi)\<close>.
\<close>

theorem electrical_angle_in_range:
  "electricalAngle st =
     normalizeAngle (real_of_int (DIR st * PP st) * S0_angle st - zero_electric_angle st)
   \<and> 0 \<le> electricalAngle st \<and> electricalAngle st < 2 * pi"
  using normalizeAngle_range by (simp add: electricalAngle_def)

lemma setTorqueVoltages_zero:
  assumes "0 < voltage_power_supply st"
  shows "Ua (setTorqueVoltages 0 angle_el st) = voltage_power_supply st / 2"
    and "Ub (setTorqueVoltages 0 angle_el st) = voltage_power_supply st / 2"
    and "Uc (setTorqueVoltages 0 angle_el st) = voltage_power_supply st / 2"
    and "voltage_power_supply (setTorqueVoltages 0 angle_el st) = voltage_power_supply st"
  using assms by (simp_all add: setTorqueVoltages_def constrain_def Let_def)

lemma dutyCycles_half:
  assumes "0 < voltage_power_supply st"
  shows "dutyCycles (voltage_power_supply st / 2) (voltage_power_supply st / 2)
           (voltage_power_supply st / 2) st = (1 / 2, 1 / 2, 1 / 2)"
  using assms by (simp add: dutyCycles_def constrain_def Let_def)

text \<open>
  C8. With a positive supply voltage, \<open>setTorque(0, angle_el)\<close> stores half the supply in
  each of the three phase voltages, so the three duty cycles that \<open>setPwm\<close> computes from
  them are all exactly 1/2, for every electrical angle; each PWM channel is written
  \<open>0.5 * 255\<close> truncated, 127.
\<close>

theorem zero_torque_gives_half_duty:
  assumes "0 < voltage_power_supply st"
  shows "(let st5 = setTorqueVoltages 0 angle_el st
          in dutyCycles (Ua st5) (Ub st5) (Uc st5) st5) = (1 / 2, 1 / 2, 1 / 2)
         \<and> ledc (setTorque 0 angle_el st) = (127, 127, 127)"
proof -
  let ?st5 = "setTorqueVoltages 0 angle_el st"
  have v: "voltage_power_supply ?st5 = voltage_power_supply st"
    using assms by (rule setTorqueVoltages_zero)
  have d: "dutyCycles (Ua ?st5) (Ub ?st5) (Uc ?st5) ?st5 = (1 / 2, 1 / 2, 1 / 2)"
    using dutyCycles_half [of ?st5] assms
    by (simp add: setTorqueVoltages_zero v)
  then show ?thesis
    by (simp add: setTorque_def setPwm_def Let_def trunc_def)
qed

text \<open>A 12 V supply and the electrical angle 1 rad.\<close>

theorem zero_torque_gives_half_duty_witness:
  "(let st5 = setTorqueVoltages 0 1
       \<lparr>voltage_power_supply = 12, Ualpha = 0, Ubeta = 0, Ua = 0, Ub = 0, Uc = 0,
        zero_electric_angle = 0, PP = 7, DIR = 1, S0_angle = 0, ledc = (0, 0, 0)\<rparr>
    in dutyCycles (Ua st5) (Ub st5) (Uc st5) st5) = (1 / 2, 1 / 2, 1 / 2)
   \<and> ledc (setTorque 0 1
       \<lparr>voltage_power_supply = 12, Ualpha = 0, Ubeta = 0, Ua = 0, Ub = 0, Uc = 0,
        zero_electric_angle = 0, PP = 7, DIR = 1, S0_angle = 0, ledc = (0, 0, 0)\<rparr>)
     = (127, 127, 127)"
  using zero_torque_gives_half_duty [of
       "\<lparr>voltage_power_supply = 12, Ualpha = 0, Ubeta = 0, Ua = 0, Ub = 0, Uc = 0,
        zero_electric_angle = 0, PP = 7, DIR = 1, S0_angle = 0, ledc = (0, 0, 0)\<rparr>" 1]
  by simp

lemma trunc_error: "\<bar>real_of_int (trunc x) - x\<bar> < 1"
proof (cases "0 \<le> x")
  case True
  have "real_of_int \<lfloor>x\<rfloor> \<le> x" "x < real_of_int \<lfloor>x\<rfloor> + 1" by linarith+
  then have "\<bar>real_of_int \<lfloor>x\<rfloor> - x\<bar> < 1" by linarith
  then show ?thesis using True by (simp only: trunc_def if_True)
next
  case False
  have "real_of_int \<lceil>x\<rceil> - 1 < x" "x \<le> real_of_int \<lceil>x\<rceil>" by linarith+
  then have "\<bar>real_of_int \<lceil>x\<rceil> - x\<bar> < 1" by linarith
  then show ?thesis using False by (simp only: trunc_def if_False)
qed

lemma trunc_in_range:
  assumes "real_of_int lo \<le> x" "x \<le> real_of_int hi" "lo \<le> 0" "0 \<le> hi"
  shows "lo \<le> trunc x \<and> trunc x \<le> hi"
proof (cases "0 \<le> x")
  case True
  then have "0 \<le> \<lfloor>x\<rfloor>" by simp
  moreover have "\<lfloor>x\<rfloor> \<le> hi" using assms(2) by (simp add: floor_le_iff)
  ultimately have "lo \<le> \<lfloor>x\<rfloor> \<and> \<lfloor>x\<rfloor> \<le> hi" using assms(3) by linarith
  then show ?thesis using True by (simp only: trunc_def if_True)
next
  case False
  then have "\<lceil>x\<rceil> \<le> 0" by (simp add: ceiling_le_iff)
  moreover have "lo \<le> \<lceil>x\<rceil>" using assms(1) by (simp add: le_ceiling_iff)
  ultimately have "lo \<le> \<lceil>x\<rceil> \<and> \<lceil>x\<rceil> \<le> hi" using assms(4) by linarith
  then show ?thesis using False by (simp only: trunc_def if_False)
qed

lemma sint_int16_of_int:
  assumes "- 32768 \<le> k" "k \<le> 32767"
  shows "sint (word_of_int k :: int16) = k"
  using assms by (simp add: signed_of_int signed_take_bit_int_eq_self)

lemma setTorque_frame:
  "zero_electric_angle (setTorque Uq a st) = zero_electric_angle st"
  "PP (setTorque Uq a st) = PP st"
  "DIR (setTorque Uq a st) = DIR st"
  "S0_angle (setTorque Uq a st) = S0_angle st"
  by (simp_all add: setTorque_def setTorqueVoltages_def setPwm_def Let_def split: prod.splits)

lemma calibrateSensor_offset:
  "zero_electric_angle (calibrateSensor PP0 DIR0 reading st) =
     normalizeAngle (real_of_int (DIR0 * PP0) * reading - zero_electric_angle st)"
  by (simp add: calibrateSensor_def Let_def setTorque_frame electricalAngle_def)

lemma normalizeAngle_eq_shift:
  assumes "normalizeAngle (x - z) = normalizeAngle x" "0 \<le> z" "z < 2 * pi"
  shows "z = 0"
proof -
  define k where "k = \<lfloor>x / (2 * pi)\<rfloor> - \<lfloor>(x - z) / (2 * pi)\<rfloor>"
  have "x - z - 2 * pi * real_of_int \<lfloor>(x - z) / (2 * pi)\<rfloor> = x - 2 * pi * real_of_int \<lfloor>x / (2 * pi)\<rfloor>"
    using assms(1) unfolding normalizeAngle_floor .
  then have z: "z = 2 * pi * real_of_int k"
    by (simp add: k_def algebra_simps)
  have p: "0 < 2 * pi" by simp
  have "2 * pi * 0 \<le> 2 * pi * real_of_int k"
    using assms(2) z by simp
  then have "0 \<le> real_of_int k"
    by (simp only: mult_le_cancel_left_pos [OF p])
  moreover have "2 * pi * real_of_int k < 2 * pi * 1"
    using assms(3) z by simp
  then have "real_of_int k < 1"
    by (simp only: mult_less_cancel_left_pos [OF p])
  ultimately have "k = 0" by linarith
  then show ?thesis using z by simp
qed

text \<open>
  C10. \<open>calibrateSensor\<close> reads \<open>electricalAngle()\<close> while the previous offset is still
  stored, so the new offset is \<open>normalizeAngle (DIR * PP * reading - previous offset)\<close>.
  It is the normalised scaled reading when the previous offset is 0, and differs from it
  for every previous offset in \<open>(0, 2 * pi)\<close>. Calibrating twice at the same rotor
  position gives back the normalised offset from before the first run: starting from
  offset 0, the second run stores 0 again, not the offset of the first run (unless that
  one is 0 too). So calibration is not idempotent: with one pole pair, direction +1 and
  the reading 1 rad, running it twice is not the same as running it once.
\<close>

theorem calibration_offset_depends_on_previous_offset:
  "zero_electric_angle (calibrateSensor PP0 DIR0 reading st) =
     normalizeAngle (real_of_int (DIR0 * PP0) * reading - zero_electric_angle st)
   \<and> (zero_electric_angle st = 0 \<longrightarrow>
        zero_electric_angle (calibrateSensor PP0 DIR0 reading st) =
          normalizeAngle (real_of_int (DIR0 * PP0) * reading))
   \<and> (0 < zero_electric_angle st \<and> zero_electric_angle st < 2 * pi \<longrightarrow>
        zero_electric_angle (calibrateSensor PP0 DIR0 reading st) \<noteq>
          normalizeAngle (real_of_int (DIR0 * PP0) * reading))
   \<and> zero_electric_angle
        (calibrateSensor PP0 DIR0 reading (calibrateSensor PP0 DIR0 reading st)) =
          normalizeAngle (zero_electric_angle st)
   \<and> (zero_electric_angle st = 0 \<and> normalizeAngle (real_of_int (DIR0 * PP0) * reading) \<noteq> 0 \<longrightarrow>
        zero_electric_angle
          (calibrateSensor PP0 DIR0 reading (calibrateSensor PP0 DIR0 reading st)) \<noteq>
        zero_electric_angle (calibrateSensor PP0 DIR0 reading st))
   \<and> \<not> (\<forall>s. calibrateSensor 1 1 1 (calibrateSensor 1 1 1 s) = calibrateSensor 1 1 1 s)"
proof -
  let ?e = "real_of_int (DIR0 * PP0) * reading"
  let ?z = "zero_electric_angle st"
  have twice: "zero_electric_angle
        (calibrateSensor PP0 DIR0 reading (calibrateSensor PP0 DIR0 reading st)) =
          normalizeAngle ?z"
  proof -
    have "?e - normalizeAngle (?e - ?z) = ?z + 2 * pi * real_of_int \<lfloor>(?e - ?z) / (2 * pi)\<rfloor>"
      unfolding normalizeAngle_floor by simp
    then show ?thesis
      unfolding calibrateSensor_offset by (simp only: normalizeAngle_periodic)
  qed
  have only: "normalizeAngle (?e - ?z) \<noteq> normalizeAngle ?e" if "0 < ?z" "?z < 2 * pi"
    using normalizeAngle_eq_shift [of ?e ?z] that by auto
  have n0: "normalizeAngle 0 = 0"
    by (simp add: normalizeAngle_id)
  have n1: "normalizeAngle 1 = 1"
    using pi_ge_two by (intro normalizeAngle_id) simp_all
  have differ: "\<not> (\<forall>s. calibrateSensor 1 1 1 (calibrateSensor 1 1 1 s) = calibrateSensor 1 1 1 s)"
  proof
    assume a: "\<forall>s. calibrateSensor 1 1 1 (calibrateSensor 1 1 1 s) = calibrateSensor 1 1 1 s"
    define s0 where "s0 = \<lparr>voltage_power_supply = 12, Ualpha = 0, Ubeta = 0, Ua = 0, Ub = 0,
      Uc = 0, zero_electric_angle = 0, PP = 1, DIR = 1, S0_angle = 0, ledc = (0, 0, 0)\<rparr>"
    have "zero_electric_angle (calibrateSensor 1 1 1 (calibrateSensor 1 1 1 s0)) =
          zero_electric_angle (calibrateSensor 1 1 1 s0)"
      using a by simp
    then show False
      by (simp add: calibrateSensor_offset s0_def n0 n1)
  qed
  have rest: "zero_electric_angle (calibrateSensor PP0 DIR0 reading st) =
     normalizeAngle (real_of_int (DIR0 * PP0) * reading - zero_electric_angle st)
   \<and> (zero_electric_angle st = 0 \<longrightarrow>
        zero_electric_angle (calibrateSensor PP0 DIR0 reading st) =
          normalizeAngle (real_of_int (DIR0 * PP0) * reading))
   \<and> (0 < zero_electric_angle st \<and> zero_electric_angle st < 2 * pi \<longrightarrow>
        zero_electric_angle (calibrateSensor PP0 DIR0 reading st) \<noteq>
          normalizeAngle (real_of_int (DIR0 * PP0) * reading))
   \<and> zero_electric_angle
        (calibrateSensor PP0 DIR0 reading (calibrateSensor PP0 DIR0 reading st)) =
          normalizeAngle (zero_electric_angle st)
   \<and> (zero_electric_angle st = 0 \<and> normalizeAngle (real_of_int (DIR0 * PP0) * reading) \<noteq> 0 \<longrightarrow>
        zero_electric_angle
          (calibrateSensor PP0 DIR0 reading (calibrateSensor PP0 DIR0 reading st)) \<noteq>
        zero_electric_angle (calibrateSensor PP0 DIR0 reading st))"
    using twice only n0 by (auto simp add: calibrateSensor_offset)
  from rest differ show ?thesis
    by (intro conjI) blast+
qed

text \<open>
  One pole pair, direction +1 and the reading 1 rad: from offset 0 the first run stores 1
  and the second run stores 0; from offset 1 a run does not store the reading 1.
\<close>

theorem calibration_offset_depends_on_previous_offset_witness:
  "zero_electric_angle (calibrateSensor 1 1 1
       \<lparr>voltage_power_supply = 12, Ualpha = 0, Ubeta = 0, Ua = 0, Ub = 0, Uc = 0,
        zero_electric_angle = 0, PP = 1, DIR = 1, S0_angle = 0, ledc = (0, 0, 0)\<rparr>) = 1
   \<and> zero_electric_angle (calibrateSensor 1 1 1 (calibrateSensor 1 1 1
       \<lparr>voltage_power_supply = 12, Ualpha = 0, Ubeta = 0, Ua = 0, Ub = 0, Uc = 0,
        zero_electric_angle = 0, PP = 1, DIR = 1, S0_angle = 0, ledc = (0, 0, 0)\<rparr>)) = 0
   \<and> zero_electric_angle (calibrateSensor 1 1 1
       \<lparr>voltage_power_supply = 12, Ualpha = 0, Ubeta = 0, Ua = 0, Ub = 0, Uc = 0,
        zero_electric_angle = 1, PP = 1, DIR = 1, S0_angle = 0, ledc = (0, 0, 0)\<rparr>) \<noteq> 1"
proof -
  have one: "normalizeAngle 1 = 1"
    using pi_ge_two by (intro normalizeAngle_id) simp_all
  have zero: "normalizeAngle 0 = 0"
    by (simp add: normalizeAngle_id)
  have lt: "(1::real) < 2 * pi"
    using pi_ge_two by simp
  show ?thesis
    using calibration_offset_depends_on_previous_offset [of 1 1 1
       "\<lparr>voltage_power_supply = 12, Ualpha = 0, Ubeta = 0, Ua = 0, Ub = 0, Uc = 0,
        zero_electric_angle = 0, PP = 1, DIR = 1, S0_angle = 0, ledc = (0, 0, 0)\<rparr>"]
      calibration_offset_depends_on_previous_offset [of 1 1 1
       "\<lparr>voltage_power_supply = 12, Ualpha = 0, Ubeta = 0, Ua = 0, Ub = 0, Uc = 0,
        zero_electric_angle = 1, PP = 1, DIR = 1, S0_angle = 0, ledc = (0, 0, 0)\<rparr>"]
      one zero lt
    by simp
qed

section \<open>Single precision at the upper end of normalizeAngle\<close>

text \<open>
  An upper bound on \<open>pi\<close>: the cosine of \<open>13176795 / 2^23\<close> is negative, by its Maclaurin
  polynomial of degree 12 and the remainder bound, so this number exceeds \<open>pi / 2\<close>.
\<close>

lemma sum_upto_14:
  fixes f :: "nat \<Rightarrow> real"
  shows "(\<Sum>m<14. f m) =
     f 0 + f 1 + f 2 + f 3 + f 4 + f 5 + f 6 + f 7 + f 8 + f 9 + f 10 + f 11 + f 12 + f 13"
  by (simp add: eval_nat_numeral)

lemma cos_coeff_values:
  "cos_coeff 0 = 1" "cos_coeff 1 = 0" "cos_coeff 2 = - 1 / 2" "cos_coeff 3 = 0"
  "cos_coeff 4 = 1 / 24" "cos_coeff 5 = 0" "cos_coeff 6 = - 1 / 720" "cos_coeff 7 = 0"
  "cos_coeff 8 = 1 / 40320" "cos_coeff 9 = 0" "cos_coeff 10 = - 1 / 3628800" "cos_coeff 11 = 0"
  "cos_coeff 12 = 1 / 479001600" "cos_coeff 13 = 0"
  by (simp_all add: cos_coeff_def fact_numeral)

lemma fact_14: "fact 14 = (87178291200 :: real)"
  by (simp add: fact_numeral)

lemma cos_series_negative:
  "(\<Sum>m<14. cos_coeff m * (13176795 / 2 ^ 23 :: real) ^ m)
     + (13176795 / 2 ^ 23) ^ 14 / fact 14 < 0"
  unfolding sum_upto_14 cos_coeff_values fact_14
  by (simp add: power_divide)

lemma pi_upper: "2 * pi < 13176795 / 2 ^ 21"
proof -
  define x :: real where "x = 13176795 / 2 ^ 23"
  have x0: "0 < x" by (simp add: x_def)
  obtain t where t: "cos x = (\<Sum>m<14. cos_coeff m * x ^ m) + (cos (t + 1 / 2 * real (14::nat) * pi) / fact 14) * x ^ 14"
    using Maclaurin_cos_expansion2 [OF x0, of 14] by auto
  have "cos (t + 1 / 2 * real (14::nat) * pi) \<le> 1" by simp
  then have "(cos (t + 1 / 2 * real (14::nat) * pi) / fact 14) * x ^ 14 \<le> (1 / fact 14) * x ^ 14"
    using x0 by (intro mult_right_mono divide_right_mono) simp_all
  then have "cos x \<le> (\<Sum>m<14. cos_coeff m * x ^ m) + x ^ 14 / fact 14"
    using t by simp
  then have neg: "cos x < 0"
    using cos_series_negative unfolding x_def by linarith
  have "pi / 2 < x"
  proof (rule ccontr)
    assume "\<not> pi / 2 < x"
    then have "x \<le> pi / 2" by simp
    then have "0 \<le> cos x"
      using x0 by (intro cos_ge_zero) simp_all
    with neg show False by simp
  qed
  then show ?thesis by (simp add: x_def)
qed

text \<open>The rounding steps of \<open>normalizeAngle\<close> at the argument \<open>-2^-40\<close>.\<close>

lemma round_binary_at:
  assumes "2 powr real_of_int e \<le> \<bar>x\<bar>" "\<bar>x\<bar> < 2 powr real_of_int (e + 1)"
    and "ulp = 2 powr real_of_int (e - int p + 1)"
  shows "round_binary p x = real_of_int (nearest_even (x / ulp)) * ulp"
proof -
  have pos: "0 < \<bar>x\<bar>"
    using assms(1) by (smt (verit) powr_gt_zero)
  then have "x \<noteq> 0" by simp
  moreover have "\<lfloor>log 2 \<bar>x\<bar>\<rfloor> = e"
    using assms pos by (simp add: floor_log_eq_powr_iff)
  ultimately show ?thesis
    using assms(3) by (simp add: round_binary_def Let_def)
qed

lemma to_float_one: "to_float 1 = 1"
proof -
  have "round_binary 24 1 = real_of_int (nearest_even (1 / (1 / 2 ^ 23))) * (1 / 2 ^ 23)"
    by (rule round_binary_at [where e = 0]) (simp_all add: powr_minus)
  then show ?thesis
    by (simp add: to_float_def nearest_even_def)
qed

lemma to_float_tiny: "to_float (- (1 / 2 ^ 40)) = - (1 / 2 ^ 40)"
proof -
  have "round_binary 24 (- (1 / 2 ^ 40)) =
      real_of_int (nearest_even (- (1 / 2 ^ 40) / (1 / 2 ^ 63))) * (1 / 2 ^ 63)"
    by (rule round_binary_at [where e = "- 40"]) (simp_all add: powr_minus)
  then show ?thesis
    by (simp add: to_float_def nearest_even_def)
qed

lemma fmod_tiny: "fmod (- (1 / 2 ^ 40)) (2 * PI) = - (1 / 2 ^ 40)"
  by (simp add: fmod_def trunc_def PI_def)

lemma to_double_sum:
  "to_double (- (1 / 2 ^ 40) + 2 * PI) = 884279719003427 / 2 ^ 47"
proof -
  have v: "- (1 / 2 ^ 40) + 2 * PI = 884279719003427 / 2 ^ 47"
    by (simp add: PI_def)
  have "round_binary 53 (884279719003427 / 2 ^ 47) =
      real_of_int (nearest_even (884279719003427 / 2 ^ 47 / (1 / 2 ^ 50))) * (1 / 2 ^ 50)"
    by (rule round_binary_at [where e = 2]) (simp_all add: powr_minus)
  then show ?thesis
    unfolding v by (simp add: to_double_def nearest_even_def)
qed

lemma to_float_sum:
  "to_float (884279719003427 / 2 ^ 47) = 13176795 / 2 ^ 21"
proof -
  have "round_binary 24 (884279719003427 / 2 ^ 47) =
      real_of_int (nearest_even (884279719003427 / 2 ^ 47 / (1 / 2 ^ 21))) * (1 / 2 ^ 21)"
    by (rule round_binary_at [where e = 2]) (simp_all add: powr_minus)
  then show ?thesis
    by (simp add: to_float_def nearest_even_def)
qed

lemma normalizeAngle_ieee_tiny:
  "normalizeAngle_ieee (- (1 / 2 ^ 40)) = 13176795 / 2 ^ 21"
  unfolding normalizeAngle_ieee_def Let_def fmod_tiny to_float_tiny to_double_sum to_float_sum
  by simp

lemma electricalAngle_ieee_tiny:
  "electricalAngle_ieee
     \<lparr>voltage_power_supply = 12, Ualpha = 0, Ubeta = 0, Ua = 0, Ub = 0, Uc = 0,
      zero_electric_angle = 0, PP = 1, DIR = 1, S0_angle = - (1 / 2 ^ 40), ledc = (0, 0, 0)\<rparr>
   = 13176795 / 2 ^ 21"
proof -
  have "to_float (to_float (to_float (real_of_int (1 * 1)) * - (1 / 2 ^ 40)) - 0) = - (1 / 2 ^ 40)"
    unfolding of_int_1 mult_1 to_float_one diff_0_right to_float_tiny ..
  then show ?thesis
    unfolding electricalAngle_ieee_def by (simp only: foc_state.simps normalizeAngle_ieee_tiny)
qed

text \<open>
  C7 at the input \<open>PP = 1\<close>, \<open>DIR = 1\<close>, offset 0 and the mechanical angle \<open>-2^-40\<close> rad.
  The argument of \<open>normalizeAngle\<close> is \<open>-2^-40\<close>; \<open>fmod\<close> leaves it unchanged, and
  \<open>a + 2*PI\<close> lies closer to the \<open>float\<close> \<open>13176795 / 2^21 = 6.2831854820251465\<close> than to
  its lower neighbour, so that is the value returned. It is greater than \<open>2 * pi\<close>: the
  result is not in \<open>[0, 2 * pi)\<close>.
\<close>

theorem electrical_angle_rounds_up_to_two_pi:
  "electricalAngle_ieee
     \<lparr>voltage_power_supply = 12, Ualpha = 0, Ubeta = 0, Ua = 0, Ub = 0, Uc = 0,
      zero_electric_angle = 0, PP = 1, DIR = 1, S0_angle = - (1 / 2 ^ 40), ledc = (0, 0, 0)\<rparr>
   = 13176795 / 2 ^ 21
   \<and> 2 * pi <
     electricalAngle_ieee
       \<lparr>voltage_power_supply = 12, Ualpha = 0, Ubeta = 0, Ua = 0, Ub = 0, Uc = 0,
        zero_electric_angle = 0, PP = 1, DIR = 1, S0_angle = - (1 / 2 ^ 40), ledc = (0, 0, 0)\<rparr>"
  unfolding electricalAngle_ieee_tiny using pi_upper by simp

section \<open>The fixed-point conversion pair in single precision\<close>

text \<open>
  Rounding to nearest moves a value by at most half a unit in the last place, that is
  by at most \<open>2^-24\<close> of its magnitude in single precision; integers of 16 bits are
  representable.
\<close>

lemma nearest_even_error: "\<bar>real_of_int (nearest_even q) - q\<bar> \<le> 1 / 2"
proof -
  have "real_of_int \<lfloor>q\<rfloor> \<le> q" "q < real_of_int \<lfloor>q\<rfloor> + 1" by linarith+
  then show ?thesis
    by (auto simp add: nearest_even_def Let_def)
qed

lemma to_float_error: "\<bar>to_float x - x\<bar> \<le> \<bar>x\<bar> / 2 ^ 24"
proof (cases "x = 0")
  case True
  then show ?thesis by (simp add: to_float_def round_binary_def)
next
  case False
  define e where "e = \<lfloor>log 2 \<bar>x\<bar>\<rfloor>"
  define ulp where "ulp = 2 powr real_of_int (e - 24 + 1)"
  have pos: "0 < \<bar>x\<bar>" using False by simp
  have lo: "2 powr real_of_int e \<le> \<bar>x\<bar>"
    using pos floor_log_eq_powr_iff [where x = "\<bar>x\<bar>" and b = 2 and k = e] e_def by simp
  have up: "0 < ulp" by (simp add: ulp_def)
  have tf: "to_float x = real_of_int (nearest_even (x / ulp)) * ulp"
    using False by (simp add: to_float_def round_binary_def Let_def e_def ulp_def)
  have "to_float x - x = (real_of_int (nearest_even (x / ulp)) - x / ulp) * ulp"
    using up unfolding tf by (simp add: field_simps)
  then have "\<bar>to_float x - x\<bar> = \<bar>real_of_int (nearest_even (x / ulp)) - x / ulp\<bar> * ulp"
    using up by (simp add: abs_mult)
  also have "\<dots> \<le> 1 / 2 * ulp"
    using nearest_even_error [of "x / ulp"] up by (simp add: mult_right_mono)
  also have "1 / 2 * ulp = 2 powr real_of_int e / 2 ^ 24"
  proof -
    have "real_of_int (e - 24 + 1) = real_of_int e + (- 23)" by simp
    then have "ulp = 2 powr real_of_int e * 2 powr (- 23)"
      unfolding ulp_def by (simp only: powr_add)
    then show ?thesis by (simp add: powr_minus)
  qed
  also have "\<dots> \<le> \<bar>x\<bar> / 2 ^ 24"
    using lo by (simp add: divide_right_mono)
  finally show ?thesis .
qed

lemma nearest_even_of_int: "nearest_even (real_of_int m) = m"
  by (simp add: nearest_even_def)

lemma to_float_of_int:
  assumes "\<bar>k\<bar> \<le> 32768"
  shows "to_float (real_of_int k) = real_of_int k"
proof (cases "k = 0")
  case True
  then show ?thesis by (simp add: to_float_def round_binary_def)
next
  case False
  define e where "e = \<lfloor>log 2 \<bar>real_of_int k\<bar>\<rfloor>"
  have pos: "1 \<le> \<bar>real_of_int k\<bar>" using False by linarith
  have e0: "0 \<le> e"
    using pos unfolding e_def by simp
  have "\<bar>real_of_int k\<bar> \<le> 32768" using assms by linarith
  then have "\<bar>real_of_int k\<bar> \<le> 2 ^ 15" by simp
  then have "log 2 \<bar>real_of_int k\<bar> \<le> 15"
    using pos by (simp add: log_le_iff)
  then have e15: "e \<le> 15" unfolding e_def by linarith
  define n where "n = nat (23 - e)"
  have ulp: "2 powr real_of_int (e - 24 + 1) = 1 / 2 ^ n"
  proof -
    have "real_of_int (e - 24 + 1) = - real n" using e15 by (simp add: n_def)
    then show ?thesis by (simp add: powr_minus powr_realpow inverse_eq_divide)
  qed
  have "real_of_int k / (1 / 2 ^ n) = real_of_int (k * 2 ^ n)" by simp
  then have "nearest_even (real_of_int k / (1 / 2 ^ n)) = k * 2 ^ n"
    by (simp only: nearest_even_of_int)
  then have "round_binary 24 (real_of_int k) = real_of_int (k * 2 ^ n) * (1 / 2 ^ n)"
    using False ulp by (simp add: round_binary_def Let_def e_def)
  then show ?thesis by (simp add: to_float_def)
qed


lemma trunc_in_open_range:
  assumes "real_of_int lo - 1 < x" "x < real_of_int hi + 1" "lo \<le> 0" "0 \<le> hi"
  shows "lo \<le> trunc x \<and> trunc x \<le> hi"
proof (cases "0 \<le> x")
  case True
  then have "0 \<le> \<lfloor>x\<rfloor>" by simp
  moreover have "\<lfloor>x\<rfloor> < hi + 1"
  proof -
    have "x < real_of_int (hi + 1)" using assms(2) by simp
    then show ?thesis by (simp only: floor_less_iff)
  qed
  ultimately have "lo \<le> \<lfloor>x\<rfloor> \<and> \<lfloor>x\<rfloor> \<le> hi" using assms(3) by linarith
  then show ?thesis using True by (simp only: trunc_def if_True)
next
  case False
  then have "\<lceil>x\<rceil> \<le> 0" by (simp add: ceiling_le_iff)
  moreover have "lo - 1 < \<lceil>x\<rceil>"
  proof -
    have "real_of_int (lo - 1) < x" using assms(1) by simp
    then show ?thesis by (simp only: less_ceiling_iff)
  qed
  ultimately have "lo \<le> \<lceil>x\<rceil> \<and> \<lceil>x\<rceil> \<le> hi" using assms(4) by linarith
  then show ?thesis using False by (simp only: trunc_def if_False)
qed

text \<open>
  C9, as the code has it. For a positive scale and a target \<open>v\<close> whose product with the
  scale lies within \<open>[-32768, 32767]\<close>, \<open>floatToInt16\<close> returns the rounded product
  truncated towards zero (no clamping takes place), and decoding it with
  \<open>int16ToFloat_ieee\<close> reproduces \<open>v\<close> within \<open>1 + 1/256\<close> quantisation steps \<open>1 / scale\<close>: one step for the
  truncation, and at most \<open>1/512\<close> of a step for each of the two roundings, of the product
  and of the quotient.
\<close>

theorem round_trip_within_rounded_step:
  assumes "0 < scale" and "- 32768 \<le> v * scale" and "v * scale \<le> 32767"
  shows "floatToInt16 v scale = Some (word_of_int (trunc (to_float (v * scale))))
         \<and> \<bar>int16ToFloat_ieee (word_of_int (trunc (to_float (v * scale)))) scale - v\<bar>
             < (1 + 1 / 256) / scale"
proof -
  let ?x = "v * scale"
  let ?p = "to_float ?x"
  let ?k = "trunc ?p"
  have ax: "\<bar>?x\<bar> \<le> 32768" using assms(2,3) by linarith
  have "\<bar>?p - ?x\<bar> \<le> \<bar>?x\<bar> / 2 ^ 24" by (rule to_float_error)
  also have "\<dots> \<le> 32768 / 2 ^ 24" using ax by (simp add: divide_right_mono)
  finally have px: "\<bar>?p - ?x\<bar> \<le> 1 / 512" by simp
  have r: "- 32768 \<le> ?k \<and> ?k \<le> 32767"
  proof (rule trunc_in_open_range)
    have "- 32769 < ?p" using px assms(2) by linarith
    then show "real_of_int (- 32768) - 1 < ?p" by simp
    have "?p < 32768" using px assms(3) by linarith
    then show "?p < real_of_int 32767 + 1" by simp
  qed simp_all
  then have enc: "floatToInt16 v scale = Some (word_of_int ?k)"
    by (simp add: floatToInt16_def Let_def)
  have s: "sint (word_of_int ?k :: int16) = ?k"
    using r by (simp add: sint_int16_of_int)
  have ak: "\<bar>?k\<bar> \<le> 32768" using r by linarith
  then have fk: "to_float (real_of_int ?k) = real_of_int ?k"
    by (rule to_float_of_int)
  have dec: "int16ToFloat_ieee (word_of_int ?k) scale = to_float (real_of_int ?k / scale)"
    unfolding int16ToFloat_ieee_def s fk ..
  have akr: "\<bar>real_of_int ?k\<bar> \<le> 32768" using ak by linarith
  have "\<bar>to_float (real_of_int ?k / scale) - real_of_int ?k / scale\<bar>
      \<le> \<bar>real_of_int ?k / scale\<bar> / 2 ^ 24"
    by (rule to_float_error)
  also have "\<bar>real_of_int ?k / scale\<bar> / 2 ^ 24 = \<bar>real_of_int ?k\<bar> / 2 ^ 24 / scale"
    using assms(1) by (simp add: abs_divide)
  also have "\<dots> \<le> 32768 / 2 ^ 24 / scale"
  proof (rule divide_right_mono)
    show "\<bar>real_of_int ?k\<bar> / 2 ^ 24 \<le> 32768 / 2 ^ 24" using akr by simp
    show "0 \<le> scale" using assms(1) by simp
  qed
  finally have e1: "\<bar>to_float (real_of_int ?k / scale) - real_of_int ?k / scale\<bar>
      \<le> (1 / 512) / scale" by simp
  have "\<bar>real_of_int ?k - ?p\<bar> < 1" by (rule trunc_error)
  then have kx: "\<bar>real_of_int ?k - ?x\<bar> < 1 + 1 / 512" using px by linarith
  have "real_of_int ?k / scale - v = (real_of_int ?k - ?x) / scale"
    using assms(1) by (simp add: field_simps)
  then have "\<bar>real_of_int ?k / scale - v\<bar> = \<bar>real_of_int ?k - ?x\<bar> / scale"
    using assms(1) by (simp add: abs_divide)
  also have "\<dots> < (1 + 1 / 512) / scale"
    using kx assms(1) by (simp only: divide_strict_right_mono)
  finally have e2: "\<bar>real_of_int ?k / scale - v\<bar> < (1 + 1 / 512) / scale" .
  have "(1 / 512) / scale + (1 + 1 / 512) / scale = (1 + 1 / 256) / scale"
    by (simp add: add_divide_distrib [symmetric])
  then have "\<bar>to_float (real_of_int ?k / scale) - v\<bar> < (1 + 1 / 256) / scale"
    using e1 e2 by linarith
  then show ?thesis
    using enc dec by simp
qed

text \<open>
  The target \<open>20.47f\<close>, the \<open>float\<close> nearest to 20.47, which is \<open>10732175 / 2^19\<close>, at the
  scale 100. The product \<open>2046.99993...\<close> is rounded to \<open>16769023 / 2^13\<close> and truncated to
  2046; the quotient \<open>20.46\<close> is rounded down to \<open>2681733 / 2^17\<close>.
\<close>

lemma to_float_20_47_times_100:
  "to_float (10732175 / 2 ^ 19 * 100) = 16769023 / 2 ^ 13"
proof -
  have "round_binary 24 (10732175 / 2 ^ 19 * 100) =
      real_of_int (nearest_even (10732175 / 2 ^ 19 * 100 / (1 / 2 ^ 13))) * (1 / 2 ^ 13)"
    by (rule round_binary_at [where e = 10]) (simp_all add: powr_minus)
  then show ?thesis
    by (simp add: to_float_def nearest_even_def)
qed

lemma to_float_20_46:
  "to_float (2046 / 100) = 2681733 / 2 ^ 17"
proof -
  have "round_binary 24 (2046 / 100) =
      real_of_int (nearest_even (2046 / 100 / (1 / 2 ^ 19))) * (1 / 2 ^ 19)"
    by (rule round_binary_at [where e = 4]) (simp_all add: powr_minus)
  then show ?thesis
    by (simp add: to_float_def nearest_even_def)
qed

lemma trunc_2046: "trunc (16769023 / 2 ^ 13) = 2046"
  by (simp add: trunc_def)

lemma encode_20_47: "floatToInt16 (10732175 / 2 ^ 19) 100 = Some 2046"
  unfolding floatToInt16_def to_float_20_47_times_100 trunc_2046 by (simp add: Let_def)

lemma decode_2046: "int16ToFloat_ieee 2046 100 = 2681733 / 2 ^ 17"
proof -
  have "to_float (real_of_int 2046) = real_of_int 2046"
    by (rule to_float_of_int) simp
  then have "to_float 2046 = 2046" by simp
  moreover have "sint (2046 :: int16) = 2046" by simp
  ultimately show ?thesis
    unfolding int16ToFloat_ieee_def using to_float_20_46 by simp
qed

text \<open>
  The product is rounded before it is truncated: \<open>0.7f\<close> is \<open>11744051 / 2^24\<close>, just
  below 0.7, and its product with 10 is rounded to 7, so \<open>floatToInt16(0.7f, 10)\<close> is 7
  where the exact product \<open>6.99999988...\<close> would be truncated to 6.
\<close>

lemma encode_0_7: "floatToInt16 (11744051 / 2 ^ 24) 10 = Some 7"
proof -
  have "round_binary 24 (11744051 / 2 ^ 24 * 10) =
      real_of_int (nearest_even (11744051 / 2 ^ 24 * 10 / (1 / 2 ^ 21))) * (1 / 2 ^ 21)"
    by (rule round_binary_at [where e = 2]) (simp_all add: powr_minus)
  then have "to_float (11744051 / 2 ^ 24 * 10) = 7"
    by (simp add: to_float_def nearest_even_def)
  then show ?thesis
    unfolding floatToInt16_def by (simp add: Let_def trunc_def)
qed

text \<open>
  Against C9 as stated: at the scale 100 the target \<open>20.47f\<close> has its product with the
  scale within the 16-bit range, is sent as 2046 and comes back as \<open>2681733 / 2^17\<close>, which
  is \<open>5243 / 2^19 = 0.01000023...\<close> away from the target: more than the step \<open>1 / 100\<close>.
\<close>

theorem round_trip_exceeds_one_step:
  "- 32768 \<le> 10732175 / 2 ^ 19 * (100::real) \<and> 10732175 / 2 ^ 19 * (100::real) \<le> 32767
   \<and> floatToInt16 (10732175 / 2 ^ 19) 100 = Some 2046
   \<and> int16ToFloat_ieee 2046 100 = 2681733 / 2 ^ 17
   \<and> \<bar>int16ToFloat_ieee 2046 100 - 10732175 / 2 ^ 19\<bar> = 5243 / 2 ^ 19
   \<and> 1 / 100 < \<bar>int16ToFloat_ieee 2046 100 - 10732175 / 2 ^ 19\<bar>"
  unfolding encode_20_47 decode_2046 by simp

text \<open>
  The same target and scale: the round trip stays within \<open>1 + 1/256\<close> steps.
\<close>

theorem round_trip_within_rounded_step_witness:
  "floatToInt16 (10732175 / 2 ^ 19) 100 = Some 2046
   \<and> \<bar>int16ToFloat_ieee 2046 100 - 10732175 / 2 ^ 19\<bar> < (1 + 1 / 256) / 100"
proof -
  have t: "word_of_int (trunc (to_float (10732175 / 2 ^ 19 * 100))) = (2046 :: int16)"
    unfolding to_float_20_47_times_100 trunc_2046 by simp
  show ?thesis
    using round_trip_within_rounded_step [of 100 "10732175 / 2 ^ 19"] unfolding t by simp
qed

end
